theory Spec2Isabelle
  imports Complex_Main
begin

section \<open>Floating-point values\<close>

text \<open>
  \<^verbatim>\<open>calibrate_padding\<close> (\<^verbatim>\<open>gfsa/datasets/padding_calibration.py\<close>) computes with
  NumPy and JAX floating-point scalars. A float is modelled as a real number or one of
  the three special values of IEEE 754. Arithmetic on finite values is exact (rounding,
  overflow and the sign of zero are not modelled); on the special values it follows
  IEEE 754, as NumPy and JAX do: no operation raises, an undefined result is \<open>NaN\<close>,
  and a finite non-zero value divided by zero is an infinity.
\<close>

datatype npfloat = Fin real | PInf | NInf | NaN

instantiation npfloat :: "{zero, one, plus, uminus, minus, times, inverse, power}"
begin

definition zero_npfloat :: npfloat where
  "zero_npfloat = Fin 0"

definition one_npfloat :: npfloat where
  "one_npfloat = Fin 1"

fun plus_npfloat :: "npfloat \<Rightarrow> npfloat \<Rightarrow> npfloat" where
  "plus_npfloat (Fin x) (Fin y) = Fin (x + y)"
| "plus_npfloat NaN _ = NaN"
| "plus_npfloat _ NaN = NaN"
| "plus_npfloat PInf NInf = NaN"
| "plus_npfloat NInf PInf = NaN"
| "plus_npfloat PInf _ = PInf"
| "plus_npfloat _ PInf = PInf"
| "plus_npfloat NInf _ = NInf"
| "plus_npfloat _ NInf = NInf"

fun uminus_npfloat :: "npfloat \<Rightarrow> npfloat" where
  "uminus_npfloat (Fin x) = Fin (- x)"
| "uminus_npfloat PInf = NInf"
| "uminus_npfloat NInf = PInf"
| "uminus_npfloat NaN = NaN"

definition minus_npfloat :: "npfloat \<Rightarrow> npfloat \<Rightarrow> npfloat" where
  "minus_npfloat x y = x + (- y)"

fun times_npfloat :: "npfloat \<Rightarrow> npfloat \<Rightarrow> npfloat" where
  "times_npfloat (Fin x) (Fin y) = Fin (x * y)"
| "times_npfloat NaN _ = NaN"
| "times_npfloat _ NaN = NaN"
| "times_npfloat PInf (Fin y) = (if y = 0 then NaN else if 0 < y then PInf else NInf)"
| "times_npfloat NInf (Fin y) = (if y = 0 then NaN else if 0 < y then NInf else PInf)"
| "times_npfloat (Fin x) PInf = (if x = 0 then NaN else if 0 < x then PInf else NInf)"
| "times_npfloat (Fin x) NInf = (if x = 0 then NaN else if 0 < x then NInf else PInf)"
| "times_npfloat PInf PInf = PInf"
| "times_npfloat NInf NInf = PInf"
| "times_npfloat PInf NInf = NInf"
| "times_npfloat NInf PInf = NInf"

fun divide_npfloat :: "npfloat \<Rightarrow> npfloat \<Rightarrow> npfloat" where
  "divide_npfloat (Fin x) (Fin y) =
     (if y \<noteq> 0 then Fin (x / y)
      else if x = 0 then NaN else if 0 < x then PInf else NInf)"
| "divide_npfloat NaN _ = NaN"
| "divide_npfloat _ NaN = NaN"
| "divide_npfloat (Fin x) PInf = Fin 0"
| "divide_npfloat (Fin x) NInf = Fin 0"
| "divide_npfloat PInf (Fin y) = (if 0 \<le> y then PInf else NInf)"
| "divide_npfloat NInf (Fin y) = (if 0 \<le> y then NInf else PInf)"
| "divide_npfloat PInf PInf = NaN"
| "divide_npfloat PInf NInf = NaN"
| "divide_npfloat NInf PInf = NaN"
| "divide_npfloat NInf NInf = NaN"

definition inverse_npfloat :: "npfloat \<Rightarrow> npfloat" where
  "inverse_npfloat x = divide (Fin 1) x"

instance ..

end

text \<open>The NumPy functions the source applies: \<^verbatim>\<open>sqrt\<close>, \<^verbatim>\<open>log\<close>, \<^verbatim>\<open>log2\<close>,
  \<^verbatim>\<open>exp2\<close>, \<^verbatim>\<open>ceil\<close>, \<^verbatim>\<open>abs\<close>, and the comparison \<^verbatim>\<open><\<close>, which is false as
  soon as one side is \<open>NaN\<close>.\<close>

fun np_sqrt :: "npfloat \<Rightarrow> npfloat" where
  "np_sqrt (Fin x) = (if x < 0 then NaN else Fin (sqrt x))"
| "np_sqrt PInf = PInf"
| "np_sqrt NInf = NaN"
| "np_sqrt NaN = NaN"

fun np_log :: "npfloat \<Rightarrow> npfloat" where
  "np_log (Fin x) = (if x < 0 then NaN else if x = 0 then NInf else Fin (ln x))"
| "np_log PInf = PInf"
| "np_log NInf = NaN"
| "np_log NaN = NaN"

fun np_log2 :: "npfloat \<Rightarrow> npfloat" where
  "np_log2 (Fin x) = (if x < 0 then NaN else if x = 0 then NInf else Fin (log 2 x))"
| "np_log2 PInf = PInf"
| "np_log2 NInf = NaN"
| "np_log2 NaN = NaN"

fun np_exp2 :: "npfloat \<Rightarrow> npfloat" where
  "np_exp2 (Fin x) = Fin (2 powr x)"
| "np_exp2 PInf = PInf"
| "np_exp2 NInf = Fin 0"
| "np_exp2 NaN = NaN"

fun np_ceil :: "npfloat \<Rightarrow> npfloat" where
  "np_ceil (Fin x) = Fin (of_int \<lceil>x\<rceil>)"
| "np_ceil PInf = PInf"
| "np_ceil NInf = NInf"
| "np_ceil NaN = NaN"

fun np_abs :: "npfloat \<Rightarrow> npfloat" where
  "np_abs (Fin x) = Fin \<bar>x\<bar>"
| "np_abs PInf = PInf"
| "np_abs NInf = PInf"
| "np_abs NaN = NaN"

fun np_less :: "npfloat \<Rightarrow> npfloat \<Rightarrow> bool" where
  "np_less (Fin x) (Fin y) = (x < y)"
| "np_less NaN _ = False"
| "np_less _ NaN = False"
| "np_less _ NInf = False"
| "np_less NInf _ = True"
| "np_less PInf _ = False"
| "np_less _ PInf = True"

definition np_sum :: "npfloat list \<Rightarrow> npfloat" where
  "np_sum xs = foldl (+) (Fin 0) xs"

section \<open>Python values and exceptions\<close>

text \<open>An exception is a value: \<open>Raised e\<close> is an exception \<open>e\<close> that the caller's
  \<^verbatim>\<open>example_builder\<close> raised, the others are raised by Python or NumPy themselves.\<close>

datatype 'e py_error = Raised 'e | ValueError | OverflowError | UnboundLocalError | KeyError

text \<open>\<^verbatim>\<open>int(x)\<close> truncates a finite float toward zero, and raises on the special
  values.\<close>

fun py_int :: "npfloat \<Rightarrow> 'e py_error + int" where
  "py_int (Fin x) = Inr (if 0 \<le> x then \<lfloor>x\<rfloor> else \<lceil>x\<rceil>)"
| "py_int PInf = Inl OverflowError"
| "py_int NInf = Inl OverflowError"
| "py_int NaN = Inl ValueError"

text \<open>The builtin \<^verbatim>\<open>min\<close> keeps its first argument and replaces it by a later one
  only when \<^verbatim>\<open>later < kept\<close> holds.\<close>

fun py_min_from :: "npfloat \<Rightarrow> npfloat list \<Rightarrow> npfloat" where
  "py_min_from m [] = m"
| "py_min_from m (x # xs) = py_min_from (if np_less x m then x else m) xs"

fun py_min :: "npfloat list \<Rightarrow> 'e py_error + npfloat" where
  "py_min [] = Inl ValueError"
| "py_min (x # xs) = Inr (py_min_from x xs)"

definition dict_get :: "('k \<rightharpoonup> 'v) \<Rightarrow> 'k \<Rightarrow> 'e py_error + 'v" where
  "dict_get d k = (case d k of None \<Rightarrow> Inl KeyError | Some v \<Rightarrow> Inr v)"

text \<open>\<^verbatim>\<open>scipy.special.erfinv\<close> is a library function: the model takes the inverse error
  function on the open interval \<open>(-1, 1)\<close> as the parameter \<open>erfinv\<close>, and adds SciPy's
  exact values: \<open>0\<close> at \<open>0\<close>, the infinities at the ends of the interval and \<open>NaN\<close>
  beyond them.\<close>

definition sp_erfinv :: "(real \<Rightarrow> real) \<Rightarrow> real \<Rightarrow> npfloat" where
  "sp_erfinv erfinv y =
     (if y < - 1 \<or> 1 < y then NaN
      else if y = 1 then PInf
      else if y = - 1 then NInf
      else if y = 0 then Fin 0
      else Fin (erfinv y))"

text \<open>\<^verbatim>\<open>np.random.randint(low, high)\<close> raises when the range is empty, and otherwise
  returns an integer of the half-open range; \<open>raw\<close> is the generator's next raw output,
  which the model reduces into the range.\<close>

definition np_randint :: "int \<Rightarrow> int \<Rightarrow> int \<Rightarrow> 'e py_error + int" where
  "np_randint low high raw =
     (if high \<le> low then Inl ValueError else Inr (low + raw mod (high - low)))"

section \<open>Data model\<close>

text \<open>The five size dimensions, in the order in which the source's dictionaries hold
  them.\<close>

datatype size_key =
  GraphNodes | GraphInTaggedNodes | InitialTransitions | InTaggedTransitions | Edges

definition size_keys :: "size_key list" where
  "size_keys = [GraphNodes, GraphInTaggedNodes, InitialTransitions, InTaggedTransitions, Edges]"

record EncodedGraphMetadata =
  num_nodes :: int
  num_input_tagged_nodes :: int

record PaddingConfig =
  static_max_metadata :: EncodedGraphMetadata
  max_initial_transitions :: int
  max_in_tagged_transitions :: int
  max_edges :: int

text \<open>What the sampler reads of a generated example: its metadata, and the number of
  entries (\<^verbatim>\<open>values.shape[0]\<close>) of its three sparse operators.\<close>

record example =
  graph_metadata :: EncodedGraphMetadata
  initial_to_in_tagged_count :: int
  in_tagged_to_in_tagged_count :: int
  edges_count :: int

fun measured :: "size_key \<Rightarrow> example \<Rightarrow> int" where
  "measured GraphNodes ex = num_nodes (graph_metadata ex)"
| "measured GraphInTaggedNodes ex = num_input_tagged_nodes (graph_metadata ex)"
| "measured InitialTransitions ex = initial_to_in_tagged_count ex"
| "measured InTaggedTransitions ex = in_tagged_to_in_tagged_count ex"
| "measured Edges ex = edges_count ex"

text \<open>The parameters of one dimension's size model, the array
  \<^verbatim>\<open>[base_mu, base_std, prop_mu, prop_std]\<close>.\<close>

record size_params =
  base_mu :: npfloat
  base_std :: npfloat
  prop_mu :: npfloat
  prop_std :: npfloat

section \<open>Collecting samples\<close>

text \<open>\<^verbatim>\<open>example_builder\<close> is the caller's function. It may keep state of its own
  (type \<open>'b\<close>) and may raise (\<open>Inl\<close>). \<open>raws i\<close> is the raw output of the random
  generator at the \<open>i\<close>-th draw. The loop returns the pairs
  \<^verbatim>\<open>(object_sizes[i], example)\<close> in the order of the draws.\<close>

fun sample_loop ::
  "(int \<Rightarrow> 'b \<Rightarrow> 'e + example \<times> 'b) \<Rightarrow> int \<Rightarrow> int \<Rightarrow> (nat \<Rightarrow> int) \<Rightarrow> nat \<Rightarrow> nat \<Rightarrow> 'b
     \<Rightarrow> 'e py_error + (int \<times> example) list" where
  "sample_loop example_builder lo hi raws i 0 st = Inr []"
| "sample_loop example_builder lo hi raws i (Suc k) st =
     (case np_randint lo hi (raws i) of
        Inl err \<Rightarrow> Inl err
      | Inr target_size \<Rightarrow>
          (case example_builder target_size st of
             Inl e \<Rightarrow> Inl (Raised e)
           | Inr (ex, st') \<Rightarrow>
               (case sample_loop example_builder lo hi raws (Suc i) k st' of
                  Inl err \<Rightarrow> Inl err
                | Inr rest \<Rightarrow> Inr ((target_size, ex) # rest))))"

text \<open>\<^verbatim>\<open>np.empty([samples])\<close> raises for a negative \<^verbatim>\<open>samples\<close>.\<close>

definition collect_samples ::
  "(int \<Rightarrow> 'b \<Rightarrow> 'e + example \<times> 'b) \<Rightarrow> int \<Rightarrow> int \<Rightarrow> int \<Rightarrow> (nat \<Rightarrow> int) \<Rightarrow> 'b
     \<Rightarrow> 'e py_error + (int \<times> example) list" where
  "collect_samples example_builder samples min_object_size max_object_size raws st =
     (if samples < 0 then Inl ValueError
      else sample_loop example_builder min_object_size max_object_size raws 0 (nat samples) st)"

definition object_sizes :: "(int \<times> example) list \<Rightarrow> int list" where
  "object_sizes smp = map fst smp"

definition data :: "(int \<times> example) list \<Rightarrow> size_key \<Rightarrow> int list" where
  "data smp k = map (\<lambda>(n, ex). measured k ex) smp"

section \<open>Fitting the size model\<close>

definition single_log_likelihood :: "size_params \<Rightarrow> int \<Rightarrow> int \<Rightarrow> npfloat" where
  "single_log_likelihood params n x =
     (let mu = base_mu params + Fin (of_int n) * prop_mu params;
          var = (base_std params)\<^sup>2 + Fin (of_int n) * (prop_std params)\<^sup>2 + Fin (1 / 1000)
      in Fin (- (1 / 2)) * (np_log (var + Fin (2 * pi)) + (Fin (of_int x) - mu)\<^sup>2 / var))"

definition compute_loss :: "size_params \<Rightarrow> int list \<Rightarrow> int list \<Rightarrow> npfloat" where
  "compute_loss params ns xs =
     - np_sum (map (\<lambda>(n, x). single_log_likelihood params n x) (zip ns xs))"

text \<open>The gradient (\<^verbatim>\<open>jax.value_and_grad\<close>) and the optimizer (\<^verbatim>\<open>optax.adam(0.1)\<close>)
  are library code, taken as parameters; \<open>'o\<close> is the optimizer's state.
  \<^verbatim>\<open>optax.apply_updates\<close> adds the updates to the parameters.\<close>

record 'o fit_library =
  grad_loss :: "size_params \<Rightarrow> int list \<Rightarrow> int list \<Rightarrow> size_params"
  opt_init :: "size_params \<Rightarrow> 'o"
  opt_update :: "size_params \<Rightarrow> 'o \<Rightarrow> size_params \<times> 'o"

definition apply_updates :: "size_params \<Rightarrow> size_params \<Rightarrow> size_params" where
  "apply_updates ps us =
     \<lparr>base_mu = base_mu ps + base_mu us, base_std = base_std ps + base_std us,
      prop_mu = prop_mu ps + prop_mu us, prop_std = prop_std ps + prop_std us\<rparr>"

definition initial_params :: size_params where
  "initial_params = \<lparr>base_mu = Fin 0, base_std = Fin 1, prop_mu = Fin 0, prop_std = Fin 1\<rparr>"

text \<open>The variables of the fitting loop. \<^verbatim>\<open>i\<close> and \<^verbatim>\<open>loss\<close> are local variables of
  the whole function: they are unbound (\<open>None\<close>) until first assigned, and keep their
  value from one dimension to the next.\<close>

record 'o fit_state =
  fs_params :: size_params
  fs_opt_state :: 'o
  fs_last_loss :: "npfloat option"
  fs_loss :: "npfloat option"
  fs_i :: "nat option"

definition loss_converged :: "npfloat option \<Rightarrow> npfloat \<Rightarrow> real \<Rightarrow> bool" where
  "loss_converged last_loss l log_likelihood_epsilon =
     (case last_loss of
        None \<Rightarrow> False
      | Some l0 \<Rightarrow> np_less (np_abs (l0 - l)) (Fin log_likelihood_epsilon))"

fun fit_loop ::
  "'o fit_library \<Rightarrow> real \<Rightarrow> int list \<Rightarrow> int list \<Rightarrow> nat list \<Rightarrow> 'o fit_state \<Rightarrow> 'o fit_state" where
  "fit_loop lib eps ns xs [] s = s"
| "fit_loop lib eps ns xs (step # steps) s =
     (let l = compute_loss (fs_params s) ns xs;
          grads = grad_loss lib (fs_params s) ns xs;
          s1 = s\<lparr>fs_loss := Some l, fs_i := Some step\<rparr>
      in if loss_converged (fs_last_loss s) l eps then s1
         else (case opt_update lib grads (fs_opt_state s) of
                 (updates, opt_state') \<Rightarrow>
                   fit_loop lib eps ns xs steps
                     (s1\<lparr>fs_last_loss := Some l, fs_opt_state := opt_state',
                         fs_params := apply_updates (fs_params s) updates\<rparr>)))"

text \<open>One dimension: the loop over \<^verbatim>\<open>range(optimization_max_steps)\<close>, then the
  \<^verbatim>\<open>print\<close> that reads \<^verbatim>\<open>i\<close> and \<^verbatim>\<open>loss\<close>.\<close>

definition fit_dimension ::
  "'o fit_library \<Rightarrow> real \<Rightarrow> int \<Rightarrow> int list \<Rightarrow> int list \<Rightarrow> nat option \<times> npfloat option
     \<Rightarrow> 'e py_error + size_params \<times> (nat option \<times> npfloat option)" where
  "fit_dimension lib eps optimization_max_steps ns xs locals =
     (let s = fit_loop lib eps ns xs [0..<nat optimization_max_steps]
                \<lparr>fs_params = initial_params, fs_opt_state = opt_init lib initial_params,
                 fs_last_loss = None, fs_loss = snd locals, fs_i = fst locals\<rparr>
      in if fs_i s = None \<or> fs_loss s = None then Inl UnboundLocalError
         else Inr (fs_params s, (fs_i s, fs_loss s)))"

fun fit_models_loop ::
  "'o fit_library \<Rightarrow> real \<Rightarrow> int \<Rightarrow> int list \<Rightarrow> (size_key \<Rightarrow> int list) \<Rightarrow> size_key list
     \<Rightarrow> (size_key \<rightharpoonup> size_params) \<Rightarrow> nat option \<times> npfloat option
     \<Rightarrow> 'e py_error + (size_key \<rightharpoonup> size_params)" where
  "fit_models_loop lib eps max_steps ns dat [] model_params locals = Inr model_params"
| "fit_models_loop lib eps max_steps ns dat (size_key # keys) model_params locals =
     (case fit_dimension lib eps max_steps ns (dat size_key) locals of
        Inl err \<Rightarrow> Inl err
      | Inr (params, locals') \<Rightarrow>
          fit_models_loop lib eps max_steps ns dat keys
            (model_params(size_key \<mapsto> params)) locals')"

text \<open>After the sampling loop \<^verbatim>\<open>i\<close> is its last index, when it ran at all.\<close>

definition fit_models ::
  "'o fit_library \<Rightarrow> real \<Rightarrow> int \<Rightarrow> (int \<times> example) list
     \<Rightarrow> 'e py_error + (size_key \<rightharpoonup> size_params)" where
  "fit_models lib eps max_steps smp =
     fit_models_loop lib eps max_steps (object_sizes smp) (data smp) size_keys Map.empty
       (if smp = [] then None else Some (length smp - 1), None)"

section \<open>Solving for the target size\<close>

definition desired_items :: "PaddingConfig \<Rightarrow> (size_key \<times> int) list" where
  "desired_items desired_sizes =
     [(GraphNodes, num_nodes (static_max_metadata desired_sizes)),
      (GraphInTaggedNodes, num_input_tagged_nodes (static_max_metadata desired_sizes)),
      (InitialTransitions, max_initial_transitions desired_sizes),
      (InTaggedTransitions, max_in_tagged_transitions desired_sizes),
      (Edges, max_edges desired_sizes)]"

definition ast_constraint :: "(real \<Rightarrow> real) \<Rightarrow> real \<Rightarrow> size_params \<Rightarrow> int \<Rightarrow> npfloat" where
  "ast_constraint erfinv p params target =
     (let erfval = (sp_erfinv erfinv (2 * p - 1))\<^sup>2;
          a = (prop_mu params)\<^sup>2;
          b = Fin 2 * prop_mu params * (base_mu params - Fin (of_int target))
                - Fin 2 * (prop_std params)\<^sup>2 * erfval;
          c = (Fin (of_int target) - base_mu params)\<^sup>2
                - Fin 2 * ((base_std params)\<^sup>2 + Fin (1 / 1000)) * erfval
      in (- b - np_sqrt (b\<^sup>2 - Fin 4 * a * c)) / (Fin 2 * a))"

fun ast_constraints ::
  "(real \<Rightarrow> real) \<Rightarrow> real \<Rightarrow> (size_key \<rightharpoonup> size_params) \<Rightarrow> (size_key \<times> int) list
     \<Rightarrow> 'e py_error + npfloat list" where
  "ast_constraints erfinv p model_params [] = Inr []"
| "ast_constraints erfinv p model_params ((size_key, target) # items) =
     (case dict_get model_params size_key of
        Inl err \<Rightarrow> Inl err
      | Inr params \<Rightarrow>
          (case ast_constraints erfinv p model_params items of
             Inl err \<Rightarrow> Inl err
           | Inr cs \<Rightarrow> Inr (ast_constraint erfinv p params target # cs)))"

definition ast_target_count ::
  "(real \<Rightarrow> real) \<Rightarrow> real \<Rightarrow> (size_key \<rightharpoonup> size_params) \<Rightarrow> PaddingConfig \<Rightarrow> 'e py_error + int" where
  "ast_target_count erfinv p model_params desired_sizes =
     (case ast_constraints erfinv p model_params (desired_items desired_sizes) of
        Inl err \<Rightarrow> Inl err
      | Inr cs \<Rightarrow> (case py_min cs of Inl err \<Rightarrow> Inl err | Inr m \<Rightarrow> py_int m))"

section \<open>Reporting the quantiles\<close>

definition size_quantile :: "(real \<Rightarrow> real) \<Rightarrow> real \<Rightarrow> size_params \<Rightarrow> int \<Rightarrow> npfloat" where
  "size_quantile erfinv p params n =
     (let mu = base_mu params + Fin (of_int n) * prop_mu params;
          var = (base_std params)\<^sup>2 + Fin (of_int n) * (prop_std params)\<^sup>2 + Fin (1 / 1000)
      in mu + np_sqrt (Fin 2 * var) * sp_erfinv erfinv (2 * p - 1))"

definition rounded_quantile :: "bool \<Rightarrow> npfloat \<Rightarrow> 'e py_error + int" where
  "rounded_quantile round_to_powers_of_two quantile =
     (if round_to_powers_of_two
      then py_int (np_exp2 (np_ceil (np_log2 (quantile - Fin (1 / 2)))))
      else py_int (np_ceil quantile))"

fun quantiles_loop ::
  "(real \<Rightarrow> real) \<Rightarrow> real \<Rightarrow> bool \<Rightarrow> int \<Rightarrow> (size_key \<times> size_params) list
     \<Rightarrow> (size_key \<rightharpoonup> int) \<Rightarrow> 'e py_error + (size_key \<rightharpoonup> int)" where
  "quantiles_loop erfinv p rnd n [] quantiles = Inr quantiles"
| "quantiles_loop erfinv p rnd n ((size_key, params) # items) quantiles =
     (case rounded_quantile rnd (size_quantile erfinv p params n) of
        Inl err \<Rightarrow> Inl err
      | Inr q \<Rightarrow> quantiles_loop erfinv p rnd n items (quantiles(size_key \<mapsto> q)))"

text \<open>\<^verbatim>\<open>model_params.items()\<close>: the keys that were fitted, in the order of insertion.\<close>

definition dict_items :: "(size_key \<rightharpoonup> 'v) \<Rightarrow> (size_key \<times> 'v) list" where
  "dict_items d = concat (map (\<lambda>k. case d k of None \<Rightarrow> [] | Some v \<Rightarrow> [(k, v)]) size_keys)"

definition padding_config :: "(size_key \<rightharpoonup> int) \<Rightarrow> 'e py_error + PaddingConfig" where
  "padding_config quantiles =
     (case dict_get quantiles GraphNodes of Inl err \<Rightarrow> Inl err | Inr q1 \<Rightarrow>
      case dict_get quantiles GraphInTaggedNodes of Inl err \<Rightarrow> Inl err | Inr q2 \<Rightarrow>
      case dict_get quantiles InitialTransitions of Inl err \<Rightarrow> Inl err | Inr q3 \<Rightarrow>
      case dict_get quantiles InTaggedTransitions of Inl err \<Rightarrow> Inl err | Inr q4 \<Rightarrow>
      case dict_get quantiles Edges of Inl err \<Rightarrow> Inl err | Inr q5 \<Rightarrow>
        Inr \<lparr>static_max_metadata = \<lparr>num_nodes = q1, num_input_tagged_nodes = q2\<rparr>,
             max_initial_transitions = q3, max_in_tagged_transitions = q4, max_edges = q5\<rparr>)"

definition report ::
  "(real \<Rightarrow> real) \<Rightarrow> real \<Rightarrow> bool \<Rightarrow> (size_key \<rightharpoonup> size_params) \<Rightarrow> int
     \<Rightarrow> 'e py_error + PaddingConfig" where
  "report erfinv p rnd model_params n =
     (case quantiles_loop erfinv p rnd n (dict_items model_params) Map.empty of
        Inl err \<Rightarrow> Inl err
      | Inr quantiles \<Rightarrow> padding_config quantiles)"

section \<open>The whole function\<close>

text \<open>The stages in the order of the source. \<^verbatim>\<open>progress\<close> is the identity (its default);
  the \<^verbatim>\<open>print\<close> calls only matter where they read a variable.\<close>

definition calibrate_from_params ::
  "(real \<Rightarrow> real) \<Rightarrow> real \<Rightarrow> bool \<Rightarrow> (size_key \<rightharpoonup> size_params) \<Rightarrow> PaddingConfig
     \<Rightarrow> 'e py_error + int \<times> PaddingConfig" where
  "calibrate_from_params erfinv p rnd model_params desired_sizes =
     (case ast_target_count erfinv p model_params desired_sizes of
        Inl err \<Rightarrow> Inl err
      | Inr n \<Rightarrow>
          (case report erfinv p rnd model_params n of
             Inl err \<Rightarrow> Inl err
           | Inr cfg \<Rightarrow> Inr (n, cfg)))"

definition calibrate_padding ::
  "(real \<Rightarrow> real) \<Rightarrow> 'o fit_library \<Rightarrow> (nat \<Rightarrow> int) \<Rightarrow> 'b
     \<Rightarrow> (int \<Rightarrow> 'b \<Rightarrow> 'e + example \<times> 'b) \<Rightarrow> PaddingConfig \<Rightarrow> real \<Rightarrow> int \<Rightarrow> int \<Rightarrow> int
     \<Rightarrow> int \<Rightarrow> real \<Rightarrow> bool \<Rightarrow> 'e py_error + int \<times> PaddingConfig" where
  "calibrate_padding erfinv lib raws st example_builder desired_sizes success_probability
       samples min_object_size max_object_size optimization_max_steps
       log_likelihood_epsilon round_to_powers_of_two =
     (case collect_samples example_builder samples min_object_size max_object_size raws st of
        Inl err \<Rightarrow> Inl err
      | Inr smp \<Rightarrow>
          (case fit_models lib log_likelihood_epsilon optimization_max_steps smp of
             Inl err \<Rightarrow> Inl err
           | Inr model_params \<Rightarrow>
               calibrate_from_params erfinv success_probability round_to_powers_of_two
                 model_params desired_sizes))"

section \<open>The specification's formulas\<close>

text \<open>The specification states its formulas over real numbers. Its parameter 4-tuple
  \<open>(base_mean, base_std, slope_mean, slope_std)\<close> is the record \<open>noise_params\<close>;
  \<open>of_noise\<close> is the same tuple as the source's array of finite floats.\<close>

record noise_params =
  base_mean :: real
  base_sd :: real
  slope_mean :: real
  slope_sd :: real

definition of_noise :: "noise_params \<Rightarrow> size_params" where
  "of_noise q =
     \<lparr>base_mu = Fin (base_mean q), base_std = Fin (base_sd q),
      prop_mu = Fin (slope_mean q), prop_std = Fin (slope_sd q)\<rparr>"

text \<open>The bound of one dimension in a padding configuration.\<close>

fun desired_size :: "PaddingConfig \<Rightarrow> size_key \<Rightarrow> int" where
  "desired_size cfg GraphNodes = num_nodes (static_max_metadata cfg)"
| "desired_size cfg GraphInTaggedNodes = num_input_tagged_nodes (static_max_metadata cfg)"
| "desired_size cfg InitialTransitions = max_initial_transitions cfg"
| "desired_size cfg InTaggedTransitions = max_in_tagged_transitions cfg"
| "desired_size cfg Edges = max_edges cfg"

text \<open>Section 4.3: the coefficients of the quadratic, with \<open>e = erfinv (2p - 1)\<close>, its
  discriminant, the root taken, and the minimum of the roots over the five dimensions.\<close>

definition spec_a :: "noise_params \<Rightarrow> real" where
  "spec_a q = (slope_mean q)\<^sup>2"

definition spec_b :: "real \<Rightarrow> noise_params \<Rightarrow> real \<Rightarrow> real" where
  "spec_b e q target =
     2 * slope_mean q * (base_mean q - target) - 2 * (slope_sd q)\<^sup>2 * e\<^sup>2"

definition spec_c :: "real \<Rightarrow> noise_params \<Rightarrow> real \<Rightarrow> real" where
  "spec_c e q target =
     (target - base_mean q)\<^sup>2 - 2 * ((base_sd q)\<^sup>2 + 1 / 1000) * e\<^sup>2"

definition spec_discriminant :: "real \<Rightarrow> noise_params \<Rightarrow> real \<Rightarrow> real" where
  "spec_discriminant e q target =
     (spec_b e q target)\<^sup>2 - 4 * spec_a q * spec_c e q target"

definition spec_root :: "real \<Rightarrow> noise_params \<Rightarrow> real \<Rightarrow> real" where
  "spec_root e q target =
     (- spec_b e q target - sqrt (spec_discriminant e q target)) / (2 * spec_a q)"

definition spec_min_root ::
  "real \<Rightarrow> (size_key \<Rightarrow> noise_params) \<Rightarrow> PaddingConfig \<Rightarrow> real" where
  "spec_min_root e fitted desired =
     Min ((\<lambda>k. spec_root e (fitted k) (of_int (desired_size desired k))) ` set size_keys)"

text \<open>Sections 4.2 and 4.4: mean, variance, quantile, log-likelihood and loss.\<close>

definition spec_mean :: "noise_params \<Rightarrow> real \<Rightarrow> real" where
  "spec_mean q n = base_mean q + n * slope_mean q"

definition spec_variance :: "noise_params \<Rightarrow> real \<Rightarrow> real" where
  "spec_variance q n = (base_sd q)\<^sup>2 + n * (slope_sd q)\<^sup>2 + 1 / 1000"

definition spec_quantile :: "real \<Rightarrow> noise_params \<Rightarrow> real \<Rightarrow> real" where
  "spec_quantile e q n = spec_mean q n + sqrt (2 * spec_variance q n) * e"

definition spec_log_likelihood :: "noise_params \<Rightarrow> real \<Rightarrow> real \<Rightarrow> real" where
  "spec_log_likelihood q n x =
     - (1 / 2) * (ln (spec_variance q n + 2 * pi) + (x - spec_mean q n)\<^sup>2 / spec_variance q n)"

definition spec_loss :: "noise_params \<Rightarrow> int list \<Rightarrow> int list \<Rightarrow> real" where
  "spec_loss q ns xs =
     - sum_list (map (\<lambda>(n, x). spec_log_likelihood q (of_int n) (of_int x)) (zip ns xs))"

text \<open>\<open>b\<close> is the smallest power of two that is at least \<open>x\<close>.\<close>

definition smallest_power_of_two_ge :: "real \<Rightarrow> int \<Rightarrow> bool" where
  "smallest_power_of_two_ge x b \<longleftrightarrow>
     (\<exists>j::nat. b = 2 ^ j \<and> x \<le> 2 ^ j \<and> (\<forall>i::nat. x \<le> 2 ^ i \<longrightarrow> j \<le> i))"

text \<open>Python's \<^verbatim>\<open>int\<close> on a real number: truncation toward zero.\<close>

definition py_trunc :: "real \<Rightarrow> int" where
  "py_trunc x = (if 0 \<le> x then \<lfloor>x\<rfloor> else \<lceil>x\<rceil>)"

text \<open>The fitting loop, as the specification describes it: the parameters and the
  optimizer's state after \<open>k\<close> updates from \<open>(0, 1, 0, 1)\<close>, the loss there, and the
  test that stops the loop at iteration \<open>k\<close>.\<close>

fun adam_steps :: "'o fit_library \<Rightarrow> int list \<Rightarrow> int list \<Rightarrow> nat \<Rightarrow> size_params \<times> 'o" where
  "adam_steps lib ns xs 0 = (initial_params, opt_init lib initial_params)"
| "adam_steps lib ns xs (Suc k) =
     (case adam_steps lib ns xs k of
        (ps, os) \<Rightarrow>
          (case opt_update lib (grad_loss lib ps ns xs) os of
             (us, os') \<Rightarrow> (apply_updates ps us, os')))"

definition loss_at :: "'o fit_library \<Rightarrow> int list \<Rightarrow> int list \<Rightarrow> nat \<Rightarrow> npfloat" where
  "loss_at lib ns xs k = compute_loss (fst (adam_steps lib ns xs k)) ns xs"

definition stops_at :: "'o fit_library \<Rightarrow> real \<Rightarrow> int list \<Rightarrow> int list \<Rightarrow> nat \<Rightarrow> bool" where
  "stops_at lib eps ns xs k \<longleftrightarrow>
     0 < k \<and> np_less (np_abs (loss_at lib ns xs (k - 1) - loss_at lib ns xs k)) (Fin eps)"


definition reach :: "noise_params \<Rightarrow> real \<Rightarrow> real" where
  "reach q t = (t - base_mean q) * (slope_sd q)\<^sup>2 + slope_mean q * ((base_sd q)\<^sup>2 + 1 / 1000)"


text \<open>The target size of the \<open>i\<close>-th draw, for a non-empty range.\<close>

definition nth_target :: "int \<Rightarrow> int \<Rightarrow> (nat \<Rightarrow> int) \<Rightarrow> nat \<Rightarrow> int" where
  "nth_target lo hi raws i = lo + raws i mod (hi - lo)"

text \<open>Collaborators for concrete runs: an example all of whose measurements equal its
  target size, a builder that returns it and counts its calls, a builder that raises at
  its \<open>j\<close>-th call, and an optimizer that adds the parameters to themselves.\<close>

definition example_of_size :: "int \<Rightarrow> example" where
  "example_of_size n =
     \<lparr>graph_metadata = \<lparr>num_nodes = n, num_input_tagged_nodes = n\<rparr>,
      initial_to_in_tagged_count = n, in_tagged_to_in_tagged_count = n, edges_count = n\<rparr>"

definition exact_builder :: "int \<Rightarrow> nat \<Rightarrow> string + example \<times> nat" where
  "exact_builder target_size calls = Inr (example_of_size target_size, Suc calls)"

definition failing_builder :: "nat \<Rightarrow> int \<Rightarrow> nat \<Rightarrow> string + example \<times> nat" where
  "failing_builder j target_size calls =
     (if calls = j then Inl ''generator failed''
      else Inr (example_of_size target_size, Suc calls))"

definition plain_library :: "unit fit_library" where
  "plain_library =
     \<lparr>grad_loss = (\<lambda>params ns xs. params), opt_init = (\<lambda>params. ()),
      opt_update = (\<lambda>grads os. (grads, os))\<rparr>"

text \<open>\<open>params\<close> is what the fitting loop of the specification returns: the parameters
  after \<open>k\<close> updates, where \<open>k\<close> is the first iteration that stops the loop, or
  \<open>max_steps\<close> when there is none.\<close>

definition fitted_by ::
  "'o fit_library \<Rightarrow> real \<Rightarrow> int \<Rightarrow> int list \<Rightarrow> int list \<Rightarrow> size_params \<Rightarrow> bool" where
  "fitted_by lib eps max_steps ns xs params \<longleftrightarrow>
     (\<exists>k \<le> nat max_steps. params = fst (adam_steps lib ns xs k)
        \<and> (k < nat max_steps \<longrightarrow> stops_at lib eps ns xs k)
        \<and> (\<forall>j<k. \<not> stops_at lib eps ns xs j))"

section \<open>Finite values\<close>

lemma np_power2: "(x::npfloat)\<^sup>2 = x * x"
  by (cases x) (simp_all add: numeral_2_eq_2 one_npfloat_def)

lemma Fin_minus [simp]: "Fin x - Fin y = Fin (x - y)"
  by (simp add: minus_npfloat_def)

lemma Fin_power2 [simp]: "(Fin x)\<^sup>2 = Fin (x\<^sup>2)"
  by (simp add: np_power2 power2_eq_square)

lemma ast_constraint_finite:
  assumes "sp_erfinv erfinv (2 * p - 1) = Fin e" "slope_mean q \<noteq> 0"
    and "0 \<le> spec_discriminant e q (of_int t)"
  shows "ast_constraint erfinv p (of_noise q) t = Fin (spec_root e q (of_int t))"
  using assms
  by (simp add: ast_constraint_def of_noise_def Let_def spec_discriminant_def
      spec_a_def spec_b_def spec_c_def spec_root_def)

lemma py_min_from_Fin: "py_min_from (Fin m) (map Fin xs) = Fin (Min (set (m # xs)))"
proof (induction xs arbitrary: m)
  case Nil
  show ?case by simp
next
  case (Cons x xs)
  have "(if x < m then Fin x else Fin m) = Fin (min x m)"
    by (simp add: min_def)
  moreover have "Min (set (min x m # xs)) = Min (set (m # x # xs))"
    by (cases "xs = []") (simp_all add: min.commute min.assoc)
  ultimately show ?case
    using Cons.IH [of "min x m"] by simp
qed

lemma py_min_Fin: "xs \<noteq> [] \<Longrightarrow> py_min (map Fin xs) = Inr (Fin (Min (set xs)))"
  by (cases xs) (simp_all add: py_min_from_Fin del: set_simps)

lemma desired_items_eq: "desired_items d = map (\<lambda>k. (k, desired_size d k)) size_keys"
  by (simp add: desired_items_def size_keys_def)

lemma ast_constraints_total:
  "ast_constraints erfinv p (\<lambda>k. Some (ps k)) (map (\<lambda>k. (k, t k)) ks) =
     Inr (map (\<lambda>k. ast_constraint erfinv p (ps k) (t k)) ks)"
  by (induction ks) (simp_all add: dict_get_def)

lemma py_int_Fin: "py_int (Fin x) = Inr (py_trunc x)"
  by (simp add: py_trunc_def)

lemma ast_target_count_finite:
  assumes e: "sp_erfinv erfinv (2 * p - 1) = Fin e"
    and s: "\<forall>k. slope_mean (fitted k) \<noteq> 0"
    and d: "\<forall>k. 0 \<le> spec_discriminant e (fitted k) (of_int (desired_size desired k))"
  shows "ast_target_count erfinv p (\<lambda>k. Some (of_noise (fitted k))) desired =
     Inr (py_trunc (spec_min_root e fitted desired))"
proof -
  have c: "ast_constraint erfinv p (of_noise (fitted k)) (desired_size desired k) =
      Fin (spec_root e (fitted k) (of_int (desired_size desired k)))" for k
    using ast_constraint_finite [OF e] s d by blast
  let ?roots = "map (\<lambda>k. spec_root e (fitted k) (of_int (desired_size desired k))) size_keys"
  have cs: "ast_constraints erfinv p (\<lambda>k. Some (of_noise (fitted k))) (desired_items desired) =
      (Inr (map Fin ?roots) :: 'a py_error + npfloat list)"
    unfolding desired_items_eq ast_constraints_total by (simp add: c)
  have ne: "?roots \<noteq> []"
    by (simp add: size_keys_def)
  have m: "py_min (map Fin ?roots) = (Inr (Fin (Min (set ?roots))) :: 'a py_error + npfloat)"
    by (rule py_min_Fin [OF ne])
  have "set ?roots = (\<lambda>k. spec_root e (fitted k) (of_int (desired_size desired k))) ` set size_keys"
    by simp
  then show ?thesis
    unfolding ast_target_count_def spec_min_root_def cs
    by (simp only: sum.case m py_int_Fin)
qed



section \<open>The constraint solver\<close>


lemma Min_const_keys: "Min ((\<lambda>k. c) ` set size_keys) = c"
  by (simp add: size_keys_def)



section \<open>Monotonicity of the solved target size\<close>

lemma spec_discriminant_eq:
  "spec_discriminant e q t =
     4 * e\<^sup>2 * (2 * slope_mean q * reach q t + ((slope_sd q)\<^sup>2)\<^sup>2 * e\<^sup>2)"
  by (simp add: spec_discriminant_def spec_a_def spec_b_def spec_c_def reach_def
      power2_eq_square algebra_simps)











lemma sp_erfinv_half: "sp_erfinv erfinv (2 * (1 / 2) - 1) = Fin 0"
  by (simp add: sp_erfinv_def)







section \<open>The quantile reporter\<close>

lemma size_quantile_finite:
  assumes "sp_erfinv erfinv (2 * p - 1) = Fin e" "0 \<le> spec_variance q (of_int n)"
  shows "size_quantile erfinv p (of_noise q) n = Fin (spec_quantile e q (of_int n))"
  using assms
  by (simp add: size_quantile_def of_noise_def Let_def spec_quantile_def spec_mean_def
      spec_variance_def)

lemma rounded_quantile_ceiling: "rounded_quantile False (Fin x) = Inr \<lceil>x\<rceil>"
  by (simp add: rounded_quantile_def)

lemma rounded_quantile_power:
  assumes "1 < x"
  shows "rounded_quantile True (Fin x) = Inr (2 ^ nat \<lceil>log 2 (x - 1 / 2)\<rceil>)"
proof -
  have y: "0 < x - 1 / 2" "2 powr (- 1) < x - 1 / 2"
    using assms by (simp_all add: powr_minus)
  then have "- 1 < log 2 (x - 1 / 2)"
    by (simp add: less_log_iff)
  then have k: "0 \<le> \<lceil>log 2 (x - 1 / 2)\<rceil>"
    by linarith
  then have "2 powr real_of_int \<lceil>log 2 (x - 1 / 2)\<rceil> = 2 ^ nat \<lceil>log 2 (x - 1 / 2)\<rceil>"
    by (simp add: powr_int)
  moreover have "\<lfloor>(2::real) ^ nat \<lceil>log 2 (x - 1 / 2)\<rceil>\<rfloor> = 2 ^ nat \<lceil>log 2 (x - 1 / 2)\<rceil>"
    by (metis floor_of_int of_int_numeral of_int_power)
  ultimately show ?thesis
    using y by (simp add: rounded_quantile_def)
qed

lemma smallest_power_of_two_ceiling_log:
  assumes "1 / 2 < y"
  shows "smallest_power_of_two_ge y (2 ^ nat \<lceil>log 2 y\<rceil>)"
proof -
  have y: "0 < y" "2 powr (- 1) < y"
    using assms by (simp_all add: powr_minus)
  then have "- 1 < log 2 y"
    by (simp add: less_log_iff)
  then have k: "0 \<le> \<lceil>log 2 y\<rceil>"
    by linarith
  have "log 2 y \<le> real_of_int \<lceil>log 2 y\<rceil>"
    by simp
  then have "y \<le> 2 powr real_of_int \<lceil>log 2 y\<rceil>"
    using y by (simp add: le_powr_iff)
  then have a: "y \<le> 2 ^ nat \<lceil>log 2 y\<rceil>"
    using k by (simp add: powr_int)
  have b: "nat \<lceil>log 2 y\<rceil> \<le> i" if "y \<le> 2 ^ i" for i :: nat
  proof -
    have p: "y \<le> 2 powr real i"
      using that by (simp add: powr_realpow)
    have "log 2 y \<le> real i"
    proof (rule iffD1 [OF le_powr_iff])
      show "(1::real) < 2" by simp
      show "0 < y" by (rule y(1))
      show "y \<le> 2 powr real i" by (rule p)
    qed
    then have "\<lceil>log 2 y\<rceil> \<le> int i"
      by (metis ceiling_le_iff of_int_of_nat_eq)
    then show ?thesis
      by linarith
  qed
  show ?thesis
    unfolding smallest_power_of_two_ge_def using a b by blast
qed

lemma rounded_quantile_small:
  assumes "1 / 2 \<le> x" "x \<le> 1"
  shows "rounded_quantile True (Fin x) = Inr 0"
proof (cases "x = 1 / 2")
  case True
  then show ?thesis
    by (simp add: rounded_quantile_def)
next
  case False
  then have y: "0 < x - 1 / 2" "x - 1 / 2 \<le> 2 powr (- 1)"
    using assms by (simp_all add: powr_minus)
  then have "log 2 (x - 1 / 2) \<le> - 1"
    by (simp add: log_le_iff)
  then have k: "\<lceil>log 2 (x - 1 / 2)\<rceil> \<le> - 1"
    by (simp add: ceiling_le_iff)
  have "real_of_int \<lceil>log 2 (x - 1 / 2)\<rceil> \<le> - 1"
    using k by linarith
  then have "2 powr real_of_int \<lceil>log 2 (x - 1 / 2)\<rceil> \<le> 2 powr (- 1)"
    by (intro powr_mono) simp_all
  moreover have "(2::real) powr (- 1) = 1 / 2"
    by (simp add: powr_minus)
  ultimately have "2 powr real_of_int \<lceil>log 2 (x - 1 / 2)\<rceil> < 1"
    by linarith
  moreover have "0 \<le> (2::real) powr real_of_int \<lceil>log 2 (x - 1 / 2)\<rceil>"
    by simp
  ultimately have "\<lfloor>(2::real) powr real_of_int \<lceil>log 2 (x - 1 / 2)\<rceil>\<rfloor> = 0"
    by linarith
  then show ?thesis
    using y by (simp add: rounded_quantile_def)
qed

lemma dict_items_total:
  "dict_items (\<lambda>k. Some (f k)) = map (\<lambda>k. (k, f k)) size_keys"
  by (simp add: dict_items_def size_keys_def)

lemma report_success:
  assumes "\<forall>k. rounded_quantile rnd (size_quantile erfinv p (ps k) n)
              = (Inr (b k) :: 'e py_error + int)"
  shows "report erfinv p rnd (\<lambda>k. Some (ps k)) n =
     (Inr \<lparr>static_max_metadata =
            \<lparr>num_nodes = b GraphNodes, num_input_tagged_nodes = b GraphInTaggedNodes\<rparr>,
          max_initial_transitions = b InitialTransitions,
          max_in_tagged_transitions = b InTaggedTransitions, max_edges = b Edges\<rparr>
      :: 'e py_error + PaddingConfig)"
  unfolding report_def dict_items_total size_keys_def
  by (simp add: assms padding_config_def dict_get_def)

lemma report_failure:
  assumes "rounded_quantile rnd (size_quantile erfinv p (ps k) n) = (Inl err :: 'e py_error + int)"
  shows "\<exists>err'. report erfinv p rnd (\<lambda>k. Some (ps k)) n = (Inl err' :: 'e py_error + PaddingConfig)"
  unfolding report_def dict_items_total size_keys_def
  using assms by (cases k) (simp_all split: sum.splits)

lemma report_Inr_D:
  assumes "report erfinv p rnd (\<lambda>k. Some (ps k)) n = (Inr cfg :: 'e py_error + PaddingConfig)"
  shows "rounded_quantile rnd (size_quantile erfinv p (ps k) n)
     = (Inr (desired_size cfg k) :: 'e py_error + int)"
proof -
  have "\<exists>b. rounded_quantile rnd (size_quantile erfinv p (ps k) n) = (Inr b :: 'e py_error + int)"
    for k
  proof (cases "rounded_quantile rnd (size_quantile erfinv p (ps k) n) :: 'e py_error + int")
    case (Inl err)
    then show ?thesis
      using report_failure [of rnd erfinv p ps k n err] assms by auto
  next
    case (Inr b)
    then show ?thesis by blast
  qed
  then obtain b where b: "\<forall>k. rounded_quantile rnd (size_quantile erfinv p (ps k) n)
      = (Inr (b k) :: 'e py_error + int)"
    by metis
  have "cfg = \<lparr>static_max_metadata =
            \<lparr>num_nodes = b GraphNodes, num_input_tagged_nodes = b GraphInTaggedNodes\<rparr>,
          max_initial_transitions = b InitialTransitions,
          max_in_tagged_transitions = b InTaggedTransitions, max_edges = b Edges\<rparr>"
    using report_success [OF b] assms by simp
  then have "desired_size cfg k = b k"
    by (cases k) simp_all
  then show ?thesis
    using b by simp
qed

lemma size_quantile_cases:
  assumes "sp_erfinv erfinv (2 * p - 1) = Fin e"
  shows "size_quantile erfinv p (of_noise q) n =
     (if 0 \<le> spec_variance q (of_int n) then Fin (spec_quantile e q (of_int n)) else NaN)"
  using assms
  by (simp add: size_quantile_def of_noise_def Let_def spec_quantile_def spec_mean_def
      spec_variance_def)

lemma rounded_quantile_NaN: "rounded_quantile rnd NaN = Inl ValueError"
  by (simp add: rounded_quantile_def minus_npfloat_def)

lemma rounded_quantile_below_half:
  "x < 1 / 2 \<Longrightarrow> rounded_quantile True (Fin x) = Inl ValueError"
  by (simp add: rounded_quantile_def)

lemma calibrate_from_params_Inr_D:
  assumes "calibrate_from_params erfinv p rnd mp desired
      = (Inr (n, cfg) :: 'e py_error + int \<times> PaddingConfig)"
  shows "ast_target_count erfinv p mp desired = (Inr n :: 'e py_error + int)"
    and "report erfinv p rnd mp n = (Inr cfg :: 'e py_error + PaddingConfig)"
  using assms by (auto simp: calibrate_from_params_def split: sum.splits)

lemma reported_quantile:
  assumes e: "sp_erfinv erfinv (2 * p - 1) = Fin e"
    and ret: "calibrate_from_params erfinv p rnd (\<lambda>k. Some (of_noise (fitted k))) desired
      = (Inr (n, cfg) :: 'e py_error + int \<times> PaddingConfig)"
  shows "0 \<le> spec_variance (fitted k) (of_int n)"
    and "size_quantile erfinv p (of_noise (fitted k)) n = Fin (spec_quantile e (fitted k) (of_int n))"
    and "rounded_quantile rnd (Fin (spec_quantile e (fitted k) (of_int n)))
      = (Inr (desired_size cfg k) :: 'e py_error + int)"
proof -
  have r: "rounded_quantile rnd (size_quantile erfinv p (of_noise (fitted k)) n)
      = (Inr (desired_size cfg k) :: 'e py_error + int)"
    using report_Inr_D [OF calibrate_from_params_Inr_D(2) [OF ret]] .
  show v: "0 \<le> spec_variance (fitted k) (of_int n)"
  proof (rule ccontr)
    assume "\<not> ?thesis"
    then have "size_quantile erfinv p (of_noise (fitted k)) n = NaN"
      by (simp add: size_quantile_cases [OF e])
    with r show False
      by (simp add: rounded_quantile_NaN)
  qed
  then show q: "size_quantile erfinv p (of_noise (fitted k)) n
      = Fin (spec_quantile e (fitted k) (of_int n))"
    by (simp add: size_quantile_cases [OF e])
  show "rounded_quantile rnd (Fin (spec_quantile e (fitted k) (of_int n)))
      = (Inr (desired_size cfg k) :: 'e py_error + int)"
    using r q by simp
qed

text \<open>What the reporter returns for a dimension with finite parameters: the ceiling of
  the quantile without rounding; with rounding, the smallest power of two that is at
  least \<open>quantile - 1/2\<close> for a quantile above 1, and 0 for a quantile of at most 1.\<close>

lemma reported_bounds:
  assumes e: "sp_erfinv erfinv (2 * p - 1) = Fin e"
    and ret: "calibrate_from_params erfinv p rnd (\<lambda>k. Some (of_noise (fitted k))) desired
      = (Inr (n, cfg) :: 'e py_error + int \<times> PaddingConfig)"
  shows "size_quantile erfinv p (of_noise (fitted k)) n = Fin (spec_quantile e (fitted k) (of_int n))
    \<and> (\<not> rnd \<longrightarrow> desired_size cfg k = \<lceil>spec_quantile e (fitted k) (of_int n)\<rceil>)
    \<and> (rnd \<and> 1 < spec_quantile e (fitted k) (of_int n) \<longrightarrow>
          smallest_power_of_two_ge (spec_quantile e (fitted k) (of_int n) - 1 / 2) (desired_size cfg k))
    \<and> (rnd \<and> spec_quantile e (fitted k) (of_int n) \<le> 1 \<longrightarrow>
          1 / 2 \<le> spec_quantile e (fitted k) (of_int n) \<and> desired_size cfg k = 0)"
proof (intro conjI impI)
  let ?q = "spec_quantile e (fitted k) (of_int n)"
  note r = reported_quantile(3) [OF e ret, of k]
  show "size_quantile erfinv p (of_noise (fitted k)) n = Fin ?q"
    by (rule reported_quantile(2) [OF e ret])
  show "desired_size cfg k = \<lceil>?q\<rceil>" if "\<not> rnd"
    using r that by (simp add: rounded_quantile_ceiling)
  show "smallest_power_of_two_ge (?q - 1 / 2) (desired_size cfg k)" if "rnd \<and> 1 < ?q"
  proof -
    have "desired_size cfg k = 2 ^ nat \<lceil>log 2 (?q - 1 / 2)\<rceil>"
      using r that by (simp add: rounded_quantile_power)
    then show ?thesis
      using that by (simp add: smallest_power_of_two_ceiling_log)
  qed
  show h: "1 / 2 \<le> ?q" if "rnd \<and> ?q \<le> 1"
  proof (rule ccontr)
    assume "\<not> 1 / 2 \<le> ?q"
    then have "?q < 1 / 2"
      by simp
    then show False
      using r that by (simp add: rounded_quantile_below_half)
  qed
  show "desired_size cfg k = 0" if "rnd \<and> ?q \<le> 1"
    using r that h [OF that] by (simp add: rounded_quantile_small)
qed

text \<open>
  Claim C2, as the code has it. Let the fitted parameters be finite, let \<open>e\<close> be the
  finite value of \<open>erfinv (2p - 1)\<close>, and let the function return with
  \<^verbatim>\<open>round_to_powers_of_two\<close> set. Then every bound whose unrounded quantile at the
  chosen target size exceeds 1 is an exact power of two, is at least the quantile minus
  \<open>1/2\<close>, and so at least the integer ceiling of the quantile minus 1.
\<close>

theorem power_of_two_bounds:
  assumes e: "sp_erfinv erfinv (2 * p - 1) = Fin e"
    and ret: "calibrate_from_params erfinv p True (\<lambda>k. Some (of_noise (fitted k))) desired
      = (Inr (n, cfg) :: 'e py_error + int \<times> PaddingConfig)"
  shows "\<forall>k. 1 < spec_quantile e (fitted k) (of_int n) \<longrightarrow>
           (\<exists>j::nat. desired_size cfg k = 2 ^ j)
         \<and> spec_quantile e (fitted k) (of_int n) - 1 / 2 \<le> of_int (desired_size cfg k)
         \<and> \<lceil>spec_quantile e (fitted k) (of_int n)\<rceil> - 1 \<le> desired_size cfg k"
proof (intro allI impI)
  fix k
  let ?q = "spec_quantile e (fitted k) (of_int n)"
  assume q: "1 < ?q"
  have "rounded_quantile True (Fin ?q) = (Inr (desired_size cfg k) :: 'e py_error + int)"
    by (rule reported_quantile(3) [OF e ret])
  then have b: "desired_size cfg k = 2 ^ nat \<lceil>log 2 (?q - 1 / 2)\<rceil>"
    by (simp add: rounded_quantile_power [OF q])
  have "smallest_power_of_two_ge (?q - 1 / 2) (desired_size cfg k)"
    unfolding b using q by (intro smallest_power_of_two_ceiling_log) simp
  then obtain j :: nat where j: "desired_size cfg k = 2 ^ j" "?q - 1 / 2 \<le> 2 ^ j"
    unfolding smallest_power_of_two_ge_def by blast
  have ge: "?q - 1 / 2 \<le> of_int (desired_size cfg k)"
    using j by simp
  then have "?q \<le> of_int (desired_size cfg k + 1)"
    by simp
  then have "\<lceil>?q\<rceil> \<le> desired_size cfg k + 1"
    by (rule ceiling_le)
  then show "(\<exists>j::nat. desired_size cfg k = 2 ^ j)
         \<and> ?q - 1 / 2 \<le> of_int (desired_size cfg k)
         \<and> \<lceil>?q\<rceil> - 1 \<le> desired_size cfg k"
    using j(1) ge by auto
qed

lemma calibrate_from_params_finite:
  assumes e: "sp_erfinv erfinv (2 * p - 1) = Fin e"
    and s: "\<forall>k. slope_mean (fitted k) \<noteq> 0"
    and d: "\<forall>k. 0 \<le> spec_discriminant e (fitted k) (of_int (desired_size desired k))"
    and n: "n = py_trunc (spec_min_root e fitted desired)"
    and v: "\<forall>k. 0 \<le> spec_variance (fitted k) (of_int n)"
    and b: "\<forall>k. rounded_quantile rnd (Fin (spec_quantile e (fitted k) (of_int n)))
              = (Inr (b k) :: 'e py_error + int)"
  shows "calibrate_from_params erfinv p rnd (\<lambda>k. Some (of_noise (fitted k))) desired =
     (Inr (n, \<lparr>static_max_metadata =
                 \<lparr>num_nodes = b GraphNodes, num_input_tagged_nodes = b GraphInTaggedNodes\<rparr>,
               max_initial_transitions = b InitialTransitions,
               max_in_tagged_transitions = b InTaggedTransitions, max_edges = b Edges\<rparr>)
      :: 'e py_error + int \<times> PaddingConfig)"
proof -
  have rq: "\<forall>k. rounded_quantile rnd (size_quantile erfinv p (of_noise (fitted k)) n)
      = (Inr (b k) :: 'e py_error + int)"
    using b v by (simp add: size_quantile_cases [OF e])
  show ?thesis
    unfolding calibrate_from_params_def
    by (simp add: ast_target_count_finite [OF e s d] n [symmetric] report_success [OF rq])
qed

lemma ceiling_log2: 
  fixes x :: real
  assumes "2 ^ k < x" "x \<le> 2 ^ Suc k"
  shows "\<lceil>log 2 x\<rceil> = int (Suc k)"
proof -
  have "0 < x"
    using assms(1) by (meson less_trans zero_less_numeral zero_less_power)
  have p1: "2 powr real k = (2::real) ^ k"
    by (rule powr_realpow) simp
  have p2: "2 powr real (k + 1) = (2::real) ^ (k + 1)"
    by (rule powr_realpow) simp
  have "\<lceil>log 2 x\<rceil> = int k + 1"
  proof (rule iffD2 [OF ceiling_log_eq_powr_iff])
    show "0 < x" by fact
    show "(1::real) < 2" by simp
    show "2 powr real k < x \<and> x \<le> 2 powr real (k + 1)"
      unfolding p1 p2 using assms by simp
  qed
  then show ?thesis
    by simp
qed


text \<open>An instance: slope 1, base mean 0 and bound 8 in every dimension, at
  \<open>p = 1/2\<close>; the target size is 8, every quantile is 8 and every bound is \<open>8 = 2\<^sup>3\<close>.\<close>

theorem power_of_two_bounds_witness:
  "calibrate_from_params (\<lambda>y. y) (1 / 2) True
     (\<lambda>k. Some (of_noise \<lparr>base_mean = 0, base_sd = 1, slope_mean = 1, slope_sd = 1\<rparr>))
     \<lparr>static_max_metadata = \<lparr>num_nodes = 8, num_input_tagged_nodes = 8\<rparr>,
      max_initial_transitions = 8, max_in_tagged_transitions = 8, max_edges = 8\<rparr>
   = (Inr (8, \<lparr>static_max_metadata = \<lparr>num_nodes = 8, num_input_tagged_nodes = 8\<rparr>,
      max_initial_transitions = 8, max_in_tagged_transitions = 8, max_edges = 8\<rparr>)
      :: unit py_error + int \<times> PaddingConfig)
   \<and> spec_quantile 0 \<lparr>base_mean = 0, base_sd = 1, slope_mean = 1, slope_sd = 1\<rparr> 8 = 8
   \<and> (\<exists>j::nat. (8::int) = 2 ^ j)"
proof -
  let ?q = "\<lparr>base_mean = 0, base_sd = 1, slope_mean = 1, slope_sd = 1\<rparr>"
  let ?d = "\<lparr>static_max_metadata = \<lparr>num_nodes = 8, num_input_tagged_nodes = 8\<rparr>,
      max_initial_transitions = 8, max_in_tagged_transitions = 8, max_edges = 8\<rparr>"
  have ds: "desired_size ?d k = 8" for k
    by (cases k) simp_all
  have D: "spec_discriminant 0 ?q 8 = 0"
    by (simp add: spec_discriminant_eq)
  have R: "spec_root 0 ?q 8 = 8"
    by (simp add: spec_root_def D spec_a_def spec_b_def)
  have m: "spec_min_root 0 (\<lambda>k. ?q) ?d = 8"
    unfolding spec_min_root_def ds by (simp add: Min_const_keys R)
  have Q: "spec_quantile 0 ?q 8 = 8"
    by (simp add: spec_quantile_def spec_mean_def)
  have "\<lceil>log 2 (15 / 2 :: real)\<rceil> = int (Suc 2)"
    by (rule ceiling_log2) simp_all
  then have r: "rounded_quantile True (Fin 8) = (Inr 8 :: unit py_error + int)"
    by (simp add: rounded_quantile_power)
  have ret: "calibrate_from_params (\<lambda>y. y) (1 / 2) True (\<lambda>k. Some (of_noise ?q)) ?d
      = (Inr (8, ?d) :: unit py_error + int \<times> PaddingConfig)"
    by (rule calibrate_from_params_finite [OF sp_erfinv_half, of "\<lambda>k. ?q" _ _ _ "\<lambda>k. 8",
          simplified])
      (simp_all add: ds D m py_trunc_def Q r spec_variance_def)
  have "\<exists>j::nat. desired_size ?d GraphNodes = 2 ^ j"
    using power_of_two_bounds [OF sp_erfinv_half ret, THEN spec, of GraphNodes]
    by (simp add: Q)
  then show ?thesis
    using ret Q by simp
qed

text \<open>A bound can be below the ceiling of its quantile, because the source rounds
  \<open>quantile - 0.5\<close>: with slope 1, base mean \<open>1/4\<close> and bound 5 in every dimension, at
  \<open>p = 1/2\<close>, the target size is 4, every quantile is \<open>17/4\<close> with ceiling 5, and
  every returned bound is 4.\<close>

theorem power_of_two_bounds_counterexample:
  "\<forall>erfinv.
     calibrate_from_params erfinv (1 / 2) True
       (\<lambda>k. Some (of_noise \<lparr>base_mean = 1 / 4, base_sd = 1, slope_mean = 1, slope_sd = 1\<rparr>))
       \<lparr>static_max_metadata = \<lparr>num_nodes = 5, num_input_tagged_nodes = 5\<rparr>,
        max_initial_transitions = 5, max_in_tagged_transitions = 5, max_edges = 5\<rparr>
     = (Inr (4, \<lparr>static_max_metadata = \<lparr>num_nodes = 4, num_input_tagged_nodes = 4\<rparr>,
        max_initial_transitions = 4, max_in_tagged_transitions = 4, max_edges = 4\<rparr>)
        :: unit py_error + int \<times> PaddingConfig)
     \<and> size_quantile erfinv (1 / 2)
         (of_noise \<lparr>base_mean = 1 / 4, base_sd = 1, slope_mean = 1, slope_sd = 1\<rparr>) 4
       = Fin (17 / 4)
     \<and> \<lceil>17 / 4 :: real\<rceil> = 5"
proof (intro allI conjI)
  fix erfinv :: "real \<Rightarrow> real"
  let ?q = "\<lparr>base_mean = 1 / 4, base_sd = 1, slope_mean = 1, slope_sd = 1\<rparr>"
  let ?d = "\<lparr>static_max_metadata = \<lparr>num_nodes = 5, num_input_tagged_nodes = 5\<rparr>,
      max_initial_transitions = 5, max_in_tagged_transitions = 5, max_edges = 5\<rparr>"
  have ds: "desired_size ?d k = 5" for k
    by (cases k) simp_all
  have D: "spec_discriminant 0 ?q 5 = 0"
    by (simp add: spec_discriminant_eq)
  have R: "spec_root 0 ?q 5 = 19 / 4"
    by (simp add: spec_root_def D spec_a_def spec_b_def)
  have m: "spec_min_root 0 (\<lambda>k. ?q) ?d = 19 / 4"
    unfolding spec_min_root_def ds by (simp add: Min_const_keys R)
  have t: "py_trunc (19 / 4) = 4"
    by (simp add: py_trunc_def)
  have Q: "spec_quantile 0 ?q 4 = 17 / 4"
    by (simp add: spec_quantile_def spec_mean_def)
  have "\<lceil>log 2 (15 / 4 :: real)\<rceil> = int (Suc 1)"
    by (rule ceiling_log2) simp_all
  then have r: "rounded_quantile True (Fin (17 / 4)) = (Inr 4 :: unit py_error + int)"
    by (simp add: rounded_quantile_power)
  show "calibrate_from_params erfinv (1 / 2) True (\<lambda>k. Some (of_noise ?q)) ?d
      = (Inr (4, \<lparr>static_max_metadata = \<lparr>num_nodes = 4, num_input_tagged_nodes = 4\<rparr>,
        max_initial_transitions = 4, max_in_tagged_transitions = 4, max_edges = 4\<rparr>)
        :: unit py_error + int \<times> PaddingConfig)"
    by (rule calibrate_from_params_finite [OF sp_erfinv_half, of "\<lambda>k. ?q" _ _ _ "\<lambda>k. 4",
          simplified])
      (simp_all add: ds D m t Q r spec_variance_def)
  show "size_quantile erfinv (1 / 2) (of_noise ?q) 4 = Fin (17 / 4)"
    by (simp add: size_quantile_cases [OF sp_erfinv_half] Q spec_variance_def)
  show "\<lceil>17 / 4 :: real\<rceil> = 5"
    by linarith
qed

text \<open>
  Claim C3 says that with power-of-two rounding the returned bound is the smallest
  power of two that is at least \<open>quantile - 0.5\<close>. The code at a quantile of at most 1:
  with slope 1, base mean \<open>3/4\<close> and bound 1 in every dimension, at \<open>p = 1/2\<close>, the
  target size is 0 and every quantile is \<open>3/4\<close>; with rounding every returned bound is
  0, which is no power of two and is below \<open>quantile - 0.5 = 1/4\<close>; without rounding
  every returned bound is 1.
\<close>

theorem small_quantile_rounds_to_zero:
  "\<forall>erfinv.
     calibrate_from_params erfinv (1 / 2) True
       (\<lambda>k. Some (of_noise \<lparr>base_mean = 3 / 4, base_sd = 1, slope_mean = 1, slope_sd = 1\<rparr>))
       \<lparr>static_max_metadata = \<lparr>num_nodes = 1, num_input_tagged_nodes = 1\<rparr>,
        max_initial_transitions = 1, max_in_tagged_transitions = 1, max_edges = 1\<rparr>
     = (Inr (0, \<lparr>static_max_metadata = \<lparr>num_nodes = 0, num_input_tagged_nodes = 0\<rparr>,
        max_initial_transitions = 0, max_in_tagged_transitions = 0, max_edges = 0\<rparr>)
        :: unit py_error + int \<times> PaddingConfig)
     \<and> size_quantile erfinv (1 / 2)
         (of_noise \<lparr>base_mean = 3 / 4, base_sd = 1, slope_mean = 1, slope_sd = 1\<rparr>) 0
       = Fin (3 / 4)
     \<and> calibrate_from_params erfinv (1 / 2) False
       (\<lambda>k. Some (of_noise \<lparr>base_mean = 3 / 4, base_sd = 1, slope_mean = 1, slope_sd = 1\<rparr>))
       \<lparr>static_max_metadata = \<lparr>num_nodes = 1, num_input_tagged_nodes = 1\<rparr>,
        max_initial_transitions = 1, max_in_tagged_transitions = 1, max_edges = 1\<rparr>
     = (Inr (0, \<lparr>static_max_metadata = \<lparr>num_nodes = 1, num_input_tagged_nodes = 1\<rparr>,
        max_initial_transitions = 1, max_in_tagged_transitions = 1, max_edges = 1\<rparr>)
        :: unit py_error + int \<times> PaddingConfig)"
proof (intro allI conjI)
  fix erfinv :: "real \<Rightarrow> real"
  let ?q = "\<lparr>base_mean = 3 / 4, base_sd = 1, slope_mean = 1, slope_sd = 1\<rparr>"
  let ?d = "\<lparr>static_max_metadata = \<lparr>num_nodes = 1, num_input_tagged_nodes = 1\<rparr>,
      max_initial_transitions = 1, max_in_tagged_transitions = 1, max_edges = 1\<rparr>"
  have ds: "desired_size ?d k = 1" for k
    by (cases k) simp_all
  have D: "spec_discriminant 0 ?q 1 = 0"
    by (simp add: spec_discriminant_eq)
  have R: "spec_root 0 ?q 1 = 1 / 4"
    by (simp add: spec_root_def D spec_a_def spec_b_def)
  have m: "spec_min_root 0 (\<lambda>k. ?q) ?d = 1 / 4"
    unfolding spec_min_root_def ds by (simp add: Min_const_keys R)
  have t: "py_trunc (1 / 4) = 0"
    by (simp add: py_trunc_def)
  have Q: "spec_quantile 0 ?q 0 = 3 / 4"
    by (simp add: spec_quantile_def spec_mean_def)
  have r: "rounded_quantile True (Fin (3 / 4)) = (Inr 0 :: unit py_error + int)"
    by (rule rounded_quantile_small) simp_all
  have c: "\<lceil>3 / 4 :: real\<rceil> = 1"
    by linarith
  show "calibrate_from_params erfinv (1 / 2) True (\<lambda>k. Some (of_noise ?q)) ?d
      = (Inr (0, \<lparr>static_max_metadata = \<lparr>num_nodes = 0, num_input_tagged_nodes = 0\<rparr>,
        max_initial_transitions = 0, max_in_tagged_transitions = 0, max_edges = 0\<rparr>)
        :: unit py_error + int \<times> PaddingConfig)"
    by (rule calibrate_from_params_finite [OF sp_erfinv_half, of "\<lambda>k. ?q" _ _ _ "\<lambda>k. 0",
          simplified])
      (simp_all add: ds D m t Q r spec_variance_def)
  show "size_quantile erfinv (1 / 2) (of_noise ?q) 0 = Fin (3 / 4)"
    by (simp add: size_quantile_cases [OF sp_erfinv_half] Q spec_variance_def)
  show "calibrate_from_params erfinv (1 / 2) False (\<lambda>k. Some (of_noise ?q)) ?d
      = (Inr (0, ?d) :: unit py_error + int \<times> PaddingConfig)"
    by (rule calibrate_from_params_finite [OF sp_erfinv_half, of "\<lambda>k. ?q" _ _ _ "\<lambda>k. 1",
          simplified])
      (simp_all add: ds D m t Q c rounded_quantile_ceiling spec_variance_def)
qed





section \<open>The sampler\<close>

lemma np_randint_range:
  assumes "np_randint lo hi raw = (Inr t :: 'e py_error + int)"
  shows "lo \<le> t \<and> t < hi"
proof -
  have "lo < hi" and t: "t = lo + raw mod (hi - lo)"
    using assms by (auto simp: np_randint_def split: if_splits)
  then have "0 \<le> raw mod (hi - lo)" "raw mod (hi - lo) < hi - lo"
    by simp_all
  with t show ?thesis
    by linarith
qed

lemma np_randint_onto:
  assumes "lo \<le> t" "t < hi"
  shows "np_randint lo hi (t - lo) = (Inr t :: 'e py_error + int)"
  using assms by (simp add: np_randint_def)

lemma np_randint_Inr:
  "lo < hi \<Longrightarrow> np_randint lo hi (raws i) = (Inr (nth_target lo hi raws i) :: 'e py_error + int)"
  by (simp add: np_randint_def nth_target_def)

lemma sample_loop_Inr_D:
  assumes "sample_loop eb lo hi raws i k st = (Inr smp :: 'e py_error + (int \<times> example) list)"
  shows "length smp = k
    \<and> (\<forall>j<k. fst (smp ! j) = nth_target lo hi raws (i + j)
          \<and> lo \<le> fst (smp ! j) \<and> fst (smp ! j) < hi
          \<and> (\<exists>s s'. eb (fst (smp ! j)) s = Inr (snd (smp ! j), s')))"
  using assms
proof (induction k arbitrary: i st smp)
  case 0
  then show ?case by simp
next
  case (Suc k)
  from Suc.prems obtain t ex st' rest where
    t: "np_randint lo hi (raws i) = (Inr t :: 'e py_error + int)"
    and b: "eb t st = Inr (ex, st')"
    and r: "sample_loop eb lo hi raws (Suc i) k st' = (Inr rest :: 'e py_error + (int \<times> example) list)"
    and smp: "smp = (t, ex) # rest"
    by (auto split: sum.splits prod.splits)
  have range: "lo \<le> t \<and> t < hi"
    by (rule np_randint_range [OF t])
  then have tt: "t = nth_target lo hi raws i"
    using t by (simp add: np_randint_def nth_target_def)
  have len: "length rest = k"
    using Suc.IH [OF r] by simp
  have tail: "fst (rest ! j) = nth_target lo hi raws (Suc i + j)
      \<and> lo \<le> fst (rest ! j) \<and> fst (rest ! j) < hi
      \<and> (\<exists>s s'. eb (fst (rest ! j)) s = Inr (snd (rest ! j), s'))" if "j < k" for j
    using Suc.IH [OF r] that by blast
  have "fst (smp ! j) = nth_target lo hi raws (i + j)
      \<and> lo \<le> fst (smp ! j) \<and> fst (smp ! j) < hi
      \<and> (\<exists>s s'. eb (fst (smp ! j)) s = Inr (snd (smp ! j), s'))" if j: "j < Suc k" for j
  proof (cases j)
    case 0
    then show ?thesis
      using smp tt range b by auto
  next
    case (Suc j')
    then have "j' < k"
      using j by simp
    from tail [OF this] obtain s s' where
      a: "fst (rest ! j') = nth_target lo hi raws (Suc i + j')"
        "lo \<le> fst (rest ! j')" "fst (rest ! j') < hi"
        "eb (fst (rest ! j')) s = Inr (snd (rest ! j'), s')"
      by blast
    have n: "smp ! j = rest ! j'"
      using smp Suc by simp
    have "\<exists>s s'. eb (fst (rest ! j')) s = Inr (snd (rest ! j'), s')"
      using a(4) by blast
    then show ?thesis
      unfolding n using a(1-3) Suc by simp
  qed
  moreover have "length smp = Suc k"
    using len smp by simp
  ultimately show ?case
    by blast
qed

lemma sample_loop_raises:
  assumes "lo < hi" "j < k"
    and "\<forall>m<j. eb (nth_target lo hi raws (i + m)) (sts m) = Inr (exs m, sts (Suc m))"
    and "eb (nth_target lo hi raws (i + j)) (sts j) = Inl e"
  shows "sample_loop eb lo hi raws i k (sts 0) = Inl (Raised e)"
  using assms
proof (induction j arbitrary: i k sts exs)
  case 0
  then obtain k' where "k = Suc k'"
    by (cases k) simp_all
  then show ?case
    using 0 by (simp add: np_randint_Inr)
next
  case (Suc j)
  then obtain k' where k: "k = Suc k'" "j < k'"
    by (cases k) simp_all
  have first: "eb (nth_target lo hi raws i) (sts 0) = Inr (exs 0, sts 1)"
    using Suc.prems(3) by (metis One_nat_def add.right_neutral zero_less_Suc)
  have "sample_loop eb lo hi raws (Suc i) k' ((\<lambda>m. sts (Suc m)) 0) = Inl (Raised e)"
  proof (rule Suc.IH [OF Suc.prems(1) k(2), where exs = "\<lambda>m. exs (Suc m)"])
    show "\<forall>m<j. eb (nth_target lo hi raws (Suc i + m)) (sts (Suc m))
        = Inr (exs (Suc m), sts (Suc (Suc m)))"
      using Suc.prems(3) by (metis Suc_less_eq add_Suc_shift)
    show "eb (nth_target lo hi raws (Suc i + j)) (sts (Suc j)) = Inl e"
      using Suc.prems(4) by simp
  qed
  then show ?case
    using Suc.prems(1) first by (simp add: k np_randint_Inr)
qed

lemma data_nth: "j < length smp \<Longrightarrow> data smp k ! j = measured k (snd (smp ! j))"
  by (simp add: data_def case_prod_beta)

text \<open>
  Claim C8. When the sampling loop completes, it has made \<^verbatim>\<open>samples\<close> draws; the target
  size of every draw lies in the half-open range from \<^verbatim>\<open>min_object_size\<close> to
  \<^verbatim>\<open>max_object_size\<close>, it is the size passed to \<^verbatim>\<open>example_builder\<close>, and the five
  measurements stored at the index of the draw are those of the example built for that
  one size: the five dimensions share the draws. Whatever the generator yields,
  \<^verbatim>\<open>randint\<close> returns a size of the range, and every size of the range is returned
  for some output of the generator. (That the draw is uniform is a property of NumPy's
  generator, outside the model.)
\<close>

theorem sampled_target_sizes_in_range:
  assumes "collect_samples example_builder samples min_object_size max_object_size raws st
      = (Inr smp :: 'e py_error + (int \<times> example) list)"
  shows "length (object_sizes smp) = nat samples
    \<and> (\<forall>j < nat samples.
          min_object_size \<le> object_sizes smp ! j \<and> object_sizes smp ! j < max_object_size
        \<and> object_sizes smp ! j = nth_target min_object_size max_object_size raws j
        \<and> (\<exists>s s' ex. example_builder (object_sizes smp ! j) s = Inr (ex, s')
              \<and> (\<forall>k. length (data smp k) = nat samples \<and> data smp k ! j = measured k ex)))
    \<and> (\<forall>raw t. np_randint min_object_size max_object_size raw = (Inr t :: 'e py_error + int)
          \<longrightarrow> min_object_size \<le> t \<and> t < max_object_size)
    \<and> (\<forall>t. min_object_size \<le> t \<and> t < max_object_size
          \<longrightarrow> (\<exists>raw. np_randint min_object_size max_object_size raw = (Inr t :: 'e py_error + int)))"
proof -
  have loop: "sample_loop example_builder min_object_size max_object_size raws 0 (nat samples) st
      = (Inr smp :: 'e py_error + (int \<times> example) list)"
    using assms by (simp add: collect_samples_def split: if_splits)
  note D = sample_loop_Inr_D [OF loop]
  have len: "length smp = nat samples"
    using D by simp
  have 1: "length (object_sizes smp) = nat samples"
    using len by (simp add: object_sizes_def)
  have 2: "min_object_size \<le> object_sizes smp ! j \<and> object_sizes smp ! j < max_object_size
        \<and> object_sizes smp ! j = nth_target min_object_size max_object_size raws j
        \<and> (\<exists>s s' ex. example_builder (object_sizes smp ! j) s = Inr (ex, s')
              \<and> (\<forall>k. length (data smp k) = nat samples \<and> data smp k ! j = measured k ex))"
    if j: "j < nat samples" for j
  proof -
    have o: "object_sizes smp ! j = fst (smp ! j)"
      using j len by (simp add: object_sizes_def)
    obtain s s' where "example_builder (fst (smp ! j)) s = Inr (snd (smp ! j), s')"
      using D j by blast
    moreover have "\<forall>k. length (data smp k) = nat samples
        \<and> data smp k ! j = measured k (snd (smp ! j))"
      using j len by (simp add: data_nth) (simp add: data_def)
    ultimately show ?thesis
      using D j o by auto
  qed
  have 3: "\<forall>raw t. np_randint min_object_size max_object_size raw = (Inr t :: 'e py_error + int)
          \<longrightarrow> min_object_size \<le> t \<and> t < max_object_size"
    using np_randint_range by blast
  have 4: "\<forall>t. min_object_size \<le> t \<and> t < max_object_size
          \<longrightarrow> (\<exists>raw. np_randint min_object_size max_object_size raw = (Inr t :: 'e py_error + int))"
    using np_randint_onto by blast
  show ?thesis
    using 1 2 3 4 by blast
qed

lemma collect_samples_error:
  assumes "collect_samples example_builder samples lo hi raws st
      = (Inl err :: 'e py_error + (int \<times> example) list)"
  shows "calibrate_padding erfinv lib raws st example_builder desired p samples lo hi steps eps rnd
      = (Inl err :: 'e py_error + int \<times> PaddingConfig)"
  using assms by (simp add: calibrate_padding_def)

text \<open>
  Claim C7. If the range of sizes is not empty and \<^verbatim>\<open>example_builder\<close> raises \<open>e\<close> at
  its \<open>j\<close>-th call (\<open>j\<close> less than \<^verbatim>\<open>samples\<close>) after returning normally before, then
  \<^verbatim>\<open>calibrate_padding\<close> raises that same \<open>e\<close> and returns no result.
\<close>

theorem example_builder_error_propagates:
  assumes "min_object_size < max_object_size" "j < nat samples"
    and "\<forall>m<j. example_builder (nth_target min_object_size max_object_size raws m) (sts m)
               = Inr (exs m, sts (Suc m))"
    and "example_builder (nth_target min_object_size max_object_size raws j) (sts j) = Inl e"
  shows "calibrate_padding erfinv lib raws (sts 0) example_builder desired p samples
           min_object_size max_object_size steps eps rnd = Inl (Raised e)
       \<and> (\<forall>r. calibrate_padding erfinv lib raws (sts 0) example_builder desired p samples
           min_object_size max_object_size steps eps rnd \<noteq> Inr r)"
proof -
  have "sample_loop example_builder min_object_size max_object_size raws 0 (nat samples) (sts 0)
      = Inl (Raised e)"
    by (rule sample_loop_raises [OF assms(1,2), where exs = exs]) (use assms(3,4) in simp_all)
  moreover have "\<not> samples < 0"
    using assms(2) by simp
  ultimately have "collect_samples example_builder samples min_object_size max_object_size raws (sts 0)
      = Inl (Raised e)"
    by (simp add: collect_samples_def)
  then have "calibrate_padding erfinv lib raws (sts 0) example_builder desired p samples
           min_object_size max_object_size steps eps rnd = Inl (Raised e)"
    by (rule collect_samples_error)
  then show ?thesis
    by simp
qed

text \<open>An instance: a builder that raises at its second call, with the default
  arguments.\<close>

theorem example_builder_error_propagates_witness:
  "calibrate_padding (\<lambda>y. y) plain_library (\<lambda>i. 1000 * int i + 5) 0 (failing_builder 1)
     \<lparr>static_max_metadata = \<lparr>num_nodes = 256, num_input_tagged_nodes = 256\<rparr>,
      max_initial_transitions = 256, max_in_tagged_transitions = 256, max_edges = 256\<rparr>
     (9 / 10) 1000 16 512 10000 (1 / 100) False
   = Inl (Raised ''generator failed'')"
proof -
  have "calibrate_padding (\<lambda>y. y) plain_library (\<lambda>i. 1000 * int i + 5) ((\<lambda>m. m) 0)
     (failing_builder 1)
     \<lparr>static_max_metadata = \<lparr>num_nodes = 256, num_input_tagged_nodes = 256\<rparr>,
      max_initial_transitions = 256, max_in_tagged_transitions = 256, max_edges = 256\<rparr>
     (9 / 10) 1000 16 512 10000 (1 / 100) False
   = Inl (Raised ''generator failed'')"
    by (rule example_builder_error_propagates
        [where j = 1 and exs = "\<lambda>m. example_of_size (nth_target 16 512 (\<lambda>i. 1000 * int i + 5) m)",
          THEN conjunct1])
      (simp_all add: failing_builder_def)
  then show ?thesis
    by simp
qed

text \<open>An instance of claim C8: two draws from the default range, 16 to 512.\<close>

theorem sampled_target_sizes_in_range_witness:
  "collect_samples exact_builder 2 16 512 (\<lambda>i. 1000 * int i + 5) 0
     = (Inr [(21, example_of_size 21), (29, example_of_size 29)]
        :: string py_error + (int \<times> example) list)
   \<and> object_sizes [(21, example_of_size 21), (29, example_of_size 29)] ! 1 = 29
   \<and> data [(21, example_of_size 21), (29, example_of_size 29)] Edges ! 1 = 29"
proof -
  let ?smp = "[(21, example_of_size 21), (29, example_of_size 29)]"
  have ev: "collect_samples exact_builder 2 16 512 (\<lambda>i. 1000 * int i + 5) 0
     = (Inr ?smp :: string py_error + (int \<times> example) list)"
    by (simp add: collect_samples_def np_randint_def exact_builder_def eval_nat_numeral)
  have "\<forall>j < nat 2.
          16 \<le> object_sizes ?smp ! j \<and> object_sizes ?smp ! j < 512
        \<and> object_sizes ?smp ! j = nth_target 16 512 (\<lambda>i. 1000 * int i + 5) j
        \<and> (\<exists>s s' ex. exact_builder (object_sizes ?smp ! j) s = Inr (ex, s')
              \<and> (\<forall>k. length (data ?smp k) = nat 2 \<and> data ?smp k ! j = measured k ex))"
    using sampled_target_sizes_in_range [OF ev] by blast
  then have "object_sizes ?smp ! 1 = nth_target 16 512 (\<lambda>i. 1000 * int i + 5) 1
      \<and> (\<exists>s s' ex. exact_builder (object_sizes ?smp ! 1) s = Inr (ex, s')
              \<and> data ?smp Edges ! 1 = measured Edges ex)"
    by (metis nat_numeral one_less_numeral_iff semiring_norm(76))
  then show ?thesis
    using ev by (auto simp: nth_target_def exact_builder_def example_of_size_def)
qed

section \<open>The model fitter\<close>

lemma foldl_plus_Fin: "foldl (+) (Fin a) (map Fin xs) = Fin (a + sum_list xs)"
  by (induction xs arbitrary: a) (simp_all add: add.assoc)

lemma np_sum_Fin: "np_sum (map Fin xs) = Fin (sum_list xs)"
  by (simp add: np_sum_def foldl_plus_Fin)

lemma single_log_likelihood_finite:
  assumes "0 < spec_variance q (of_int n)"
  shows "single_log_likelihood (of_noise q) n x
     = Fin (spec_log_likelihood q (of_int n) (of_int x))"
proof -
  have "0 < spec_variance q (of_int n) + 2 * pi"
    using assms pi_gt_zero by linarith
  then show ?thesis
    using assms
    by (simp add: single_log_likelihood_def of_noise_def Let_def spec_log_likelihood_def
        spec_variance_def spec_mean_def)
qed

lemma compute_loss_finite:
  assumes "\<forall>n\<in>set ns. 0 < spec_variance q (of_int n)"
  shows "compute_loss (of_noise q) ns xs = Fin (spec_loss q ns xs)"
proof -
  have "map (\<lambda>(n, x). single_log_likelihood (of_noise q) n x) (zip ns xs)
      = map Fin (map (\<lambda>(n, x). spec_log_likelihood q (of_int n) (of_int x)) (zip ns xs))"
    using assms by (auto simp: single_log_likelihood_finite dest: set_zip_leftD)
  then show ?thesis
    by (simp add: compute_loss_def spec_loss_def np_sum_Fin del: map_map)
qed

lemma loss_converged_stops_at:
  "loss_converged (if j = 0 then None else Some (loss_at lib ns xs (j - 1)))
     (loss_at lib ns xs j) eps = stops_at lib eps ns xs j"
  by (simp add: loss_converged_def stops_at_def)

lemma fit_loop_from:
  assumes "fs_params s = fst (adam_steps lib ns xs j)"
    and "fs_opt_state s = snd (adam_steps lib ns xs j)"
    and "fs_last_loss s = (if j = 0 then None else Some (loss_at lib ns xs (j - 1)))"
  shows "\<exists>k. j \<le> k \<and> k \<le> j + m
      \<and> fs_params (fit_loop lib eps ns xs [j..<j + m] s) = fst (adam_steps lib ns xs k)
      \<and> (k < j + m \<longrightarrow> stops_at lib eps ns xs k)
      \<and> (\<forall>i. j \<le> i \<and> i < k \<longrightarrow> \<not> stops_at lib eps ns xs i)
      \<and> (0 < m \<longrightarrow> fs_i (fit_loop lib eps ns xs [j..<j + m] s) = Some (min k (j + m - 1))
            \<and> fs_loss (fit_loop lib eps ns xs [j..<j + m] s) = Some (loss_at lib ns xs (min k (j + m - 1))))"
  using assms
proof (induction m arbitrary: j s)
  case 0
  then show ?case
    by auto
next
  case (Suc m)
  have upt: "[j..<j + Suc m] = j # [Suc j..<Suc j + m]"
    by (simp add: upt_conv_Cons)
  have l: "compute_loss (fs_params s) ns xs = loss_at lib ns xs j"
    using Suc.prems(1) by (simp add: loss_at_def)
  have c: "loss_converged (fs_last_loss s) (loss_at lib ns xs j) eps = stops_at lib eps ns xs j"
    using Suc.prems(3) loss_converged_stops_at [of j lib ns xs eps] by simp
  show ?case
  proof (cases "stops_at lib eps ns xs j")
    case True
    then have "fit_loop lib eps ns xs [j..<j + Suc m] s
        = s\<lparr>fs_loss := Some (loss_at lib ns xs j), fs_i := Some j\<rparr>"
      unfolding upt by (simp add: l c Let_def)
    then show ?thesis
      using True Suc.prems(1) by (intro exI [of _ j]) (auto simp del: upt_Suc)
  next
    case False
    obtain updates os' where u: "opt_update lib (grad_loss lib (fs_params s) ns xs) (fs_opt_state s)
        = (updates, os')"
      by (cases "opt_update lib (grad_loss lib (fs_params s) ns xs) (fs_opt_state s)")
    define s2 where "s2 = s\<lparr>fs_loss := Some (loss_at lib ns xs j), fs_i := Some j,
        fs_last_loss := Some (loss_at lib ns xs j), fs_opt_state := os',
        fs_params := apply_updates (fs_params s) updates\<rparr>"
    have step: "fit_loop lib eps ns xs [j..<j + Suc m] s
        = fit_loop lib eps ns xs [Suc j..<Suc j + m] s2"
      unfolding upt using False by (simp add: l c Let_def u s2_def)
    have a: "adam_steps lib ns xs (Suc j) = (apply_updates (fs_params s) updates, os')"
    proof -
      have "adam_steps lib ns xs j = (fs_params s, fs_opt_state s)"
        using Suc.prems(1,2) by (simp add: prod_eq_iff)
      then show ?thesis
        using u by simp
    qed
    have p2: "fs_params s2 = fst (adam_steps lib ns xs (Suc j))"
      and o2: "fs_opt_state s2 = snd (adam_steps lib ns xs (Suc j))"
      and l2: "fs_last_loss s2 = (if Suc j = 0 then None else Some (loss_at lib ns xs (Suc j - 1)))"
      unfolding a by (simp_all add: s2_def)
    from Suc.IH [OF p2 o2 l2] obtain k where k:
      "Suc j \<le> k" "k \<le> Suc j + m"
      "fs_params (fit_loop lib eps ns xs [Suc j..<Suc j + m] s2) = fst (adam_steps lib ns xs k)"
      "k < Suc j + m \<longrightarrow> stops_at lib eps ns xs k"
      "\<forall>i. Suc j \<le> i \<and> i < k \<longrightarrow> \<not> stops_at lib eps ns xs i"
      "0 < m \<longrightarrow> fs_i (fit_loop lib eps ns xs [Suc j..<Suc j + m] s2) = Some (min k (Suc j + m - 1))
         \<and> fs_loss (fit_loop lib eps ns xs [Suc j..<Suc j + m] s2)
             = Some (loss_at lib ns xs (min k (Suc j + m - 1)))"
      by blast
    have none: "\<forall>i. j \<le> i \<and> i < k \<longrightarrow> \<not> stops_at lib eps ns xs i"
      using k(5) False by (metis Suc_leI le_neq_implies_less)
    have last: "fs_i (fit_loop lib eps ns xs [Suc j..<Suc j + m] s2) = Some (min k (j + Suc m - 1))
        \<and> fs_loss (fit_loop lib eps ns xs [Suc j..<Suc j + m] s2)
             = Some (loss_at lib ns xs (min k (j + Suc m - 1)))"
    proof (cases "m = 0")
      case True
      then have "k = Suc j"
        using k(1,2) by simp
      then show ?thesis
        using True by (simp add: s2_def)
    next
      case False
      then show ?thesis
        using k(6) by simp
    qed
    show ?thesis
      unfolding step
      using k(1,2,3,4) none last by (intro exI [of _ k]) (auto simp del: upt_Suc)
  qed
qed

lemma fit_dimension_steps:
  assumes "1 \<le> optimization_max_steps"
  shows "\<exists>k params i l.
      fit_dimension lib eps optimization_max_steps ns xs locals
        = (Inr (params, (Some i, Some l)) :: 'e py_error + size_params \<times> (nat option \<times> npfloat option))
    \<and> k \<le> nat optimization_max_steps
    \<and> params = fst (adam_steps lib ns xs k)
    \<and> (k < nat optimization_max_steps \<longrightarrow> stops_at lib eps ns xs k)
    \<and> (\<forall>j<k. \<not> stops_at lib eps ns xs j)
    \<and> i = min k (nat optimization_max_steps - 1)
    \<and> l = loss_at lib ns xs i"
proof -
  define s0 where "s0 = \<lparr>fs_params = initial_params, fs_opt_state = opt_init lib initial_params,
      fs_last_loss = None, fs_loss = snd locals, fs_i = fst locals\<rparr>"
  define m where "m = nat optimization_max_steps"
  have m: "0 < m"
    using assms by (simp add: m_def)
  have "\<exists>k. 0 \<le> k \<and> k \<le> 0 + m
      \<and> fs_params (fit_loop lib eps ns xs [0..<0 + m] s0) = fst (adam_steps lib ns xs k)
      \<and> (k < 0 + m \<longrightarrow> stops_at lib eps ns xs k)
      \<and> (\<forall>i. 0 \<le> i \<and> i < k \<longrightarrow> \<not> stops_at lib eps ns xs i)
      \<and> (0 < m \<longrightarrow> fs_i (fit_loop lib eps ns xs [0..<0 + m] s0) = Some (min k (0 + m - 1))
            \<and> fs_loss (fit_loop lib eps ns xs [0..<0 + m] s0)
                = Some (loss_at lib ns xs (min k (0 + m - 1))))"
    by (rule fit_loop_from) (simp_all add: s0_def)
  then obtain k where k: "k \<le> m"
    "fs_params (fit_loop lib eps ns xs [0..<m] s0) = fst (adam_steps lib ns xs k)"
    "k < m \<longrightarrow> stops_at lib eps ns xs k"
    "\<forall>i<k. \<not> stops_at lib eps ns xs i"
    "fs_i (fit_loop lib eps ns xs [0..<m] s0) = Some (min k (m - 1))"
    "fs_loss (fit_loop lib eps ns xs [0..<m] s0) = Some (loss_at lib ns xs (min k (m - 1)))"
    using m by auto
  have "fit_dimension lib eps optimization_max_steps ns xs locals
      = (Inr (fst (adam_steps lib ns xs k),
          (Some (min k (m - 1)), Some (loss_at lib ns xs (min k (m - 1)))))
         :: 'e py_error + size_params \<times> (nat option \<times> npfloat option))"
    unfolding fit_dimension_def s0_def [symmetric] m_def [symmetric]
    using k(2,5,6) by (simp add: Let_def)
  then show ?thesis
    using k(1,3,4) unfolding m_def by blast
qed

lemma size_keys_all: "k \<in> set size_keys"
  by (cases k) (simp_all add: size_keys_def)

lemma distinct_size_keys: "distinct size_keys"
  by (simp add: size_keys_def)

lemma fit_dimension_fitted_by:
  assumes "1 \<le> max_steps"
  shows "\<exists>params i l.
      fit_dimension lib eps max_steps ns xs locals
        = (Inr (params, (Some i, Some l)) :: 'e py_error + size_params \<times> (nat option \<times> npfloat option))
    \<and> fitted_by lib eps max_steps ns xs params"
  using fit_dimension_steps [OF assms, of lib eps ns xs locals, where ?'e = 'e]
  unfolding fitted_by_def by blast

lemma fit_models_loop_params:
  assumes "1 \<le> max_steps"
  shows "fit_models_loop lib eps max_steps ns dat keys mp0 locals
        = (Inr mp :: 'e py_error + (size_key \<rightharpoonup> size_params))
    \<Longrightarrow> distinct keys
    \<Longrightarrow> (\<forall>key\<in>set keys. \<exists>params. mp key = Some params
            \<and> fitted_by lib eps max_steps ns (dat key) params)
      \<and> (\<forall>key. key \<notin> set keys \<longrightarrow> mp key = mp0 key)"
proof (induction keys arbitrary: mp0 locals)
  case Nil
  then show ?case by simp
next
  case (Cons key keys)
  obtain params i l where f: "fit_dimension lib eps max_steps ns (dat key) locals
      = (Inr (params, (Some i, Some l)) :: 'e py_error + size_params \<times> (nat option \<times> npfloat option))"
    and fb: "fitted_by lib eps max_steps ns (dat key) params"
    using fit_dimension_fitted_by [OF assms, of lib eps ns "dat key" locals, where ?'e = 'e] by blast
  have r: "fit_models_loop lib eps max_steps ns dat keys (mp0(key \<mapsto> params)) (Some i, Some l)
      = (Inr mp :: 'e py_error + (size_key \<rightharpoonup> size_params))"
    using Cons.prems(1) f by simp
  have d: "distinct keys" and nk: "key \<notin> set keys"
    using Cons.prems(2) by simp_all
  note IH = Cons.IH [OF r d]
  have "mp key = Some params"
    using IH nk by simp
  then show ?case
    using IH fb by auto
qed

lemma fit_models_params:
  assumes "1 \<le> max_steps"
    and "fit_models lib eps max_steps smp = (Inr mp :: 'e py_error + (size_key \<rightharpoonup> size_params))"
  shows "\<exists>params. mp key = Some params
      \<and> fitted_by lib eps max_steps (object_sizes smp) (data smp key) params"
  using fit_models_loop_params [OF assms(1) assms(2) [unfolded fit_models_def] distinct_size_keys]
    size_keys_all by blast

text \<open>
  Claim C6. Where every variance is positive, the loss the fitter computes for finite
  parameters is the negative sum over the samples of
  \<open>- 1/2 (ln (variance n + 2 pi) + (x - mean n)\<^sup>2 / variance n)\<close>. With
  \<^verbatim>\<open>optimization_max_steps\<close> at least 1, the fit of a dimension starts at
  \<open>(0, 1, 0, 1)\<close> and returns the parameters after \<open>k\<close> updates, where \<open>k\<close> is at most
  \<^verbatim>\<open>optimization_max_steps\<close> and is the first iteration at which the loss differs from
  the loss of the iteration before by less than \<^verbatim>\<open>log_likelihood_epsilon\<close>, or
  \<^verbatim>\<open>optimization_max_steps\<close> when there is none; and the parameters of every dimension
  are fitted so, to the drawn target sizes and that dimension's measurements.
\<close>

theorem model_fitter_loss_and_loop:
  assumes "1 \<le> optimization_max_steps"
  shows "(\<forall>q. (\<forall>n\<in>set ns. 0 < spec_variance q (of_int n))
            \<longrightarrow> compute_loss (of_noise q) ns xs = Fin (spec_loss q ns xs))
       \<and> fst (adam_steps lib ns xs 0)
           = \<lparr>base_mu = Fin 0, base_std = Fin 1, prop_mu = Fin 0, prop_std = Fin 1\<rparr>
       \<and> (\<exists>params locals'.
             fit_dimension lib log_likelihood_epsilon optimization_max_steps ns xs locals
               = (Inr (params, locals') :: 'e py_error + size_params \<times> (nat option \<times> npfloat option))
           \<and> fitted_by lib log_likelihood_epsilon optimization_max_steps ns xs params)
       \<and> (\<forall>mp key.
             fit_models lib log_likelihood_epsilon optimization_max_steps smp
               = (Inr mp :: 'e py_error + (size_key \<rightharpoonup> size_params))
             \<longrightarrow> (\<exists>params. mp key = Some params
                  \<and> fitted_by lib log_likelihood_epsilon optimization_max_steps
                        (object_sizes smp) (data smp key) params))"
proof (intro conjI)
  show "\<forall>q. (\<forall>n\<in>set ns. 0 < spec_variance q (of_int n))
            \<longrightarrow> compute_loss (of_noise q) ns xs = Fin (spec_loss q ns xs)"
    using compute_loss_finite by blast
  show "fst (adam_steps lib ns xs 0)
      = \<lparr>base_mu = Fin 0, base_std = Fin 1, prop_mu = Fin 0, prop_std = Fin 1\<rparr>"
    by (simp add: initial_params_def)
  show "\<exists>params locals'.
             fit_dimension lib log_likelihood_epsilon optimization_max_steps ns xs locals
               = (Inr (params, locals') :: 'e py_error + size_params \<times> (nat option \<times> npfloat option))
           \<and> fitted_by lib log_likelihood_epsilon optimization_max_steps ns xs params"
    using fit_dimension_fitted_by [OF assms, of lib log_likelihood_epsilon ns xs locals,
        where ?'e = 'e] by blast
  show "\<forall>mp key.
             fit_models lib log_likelihood_epsilon optimization_max_steps smp
               = (Inr mp :: 'e py_error + (size_key \<rightharpoonup> size_params))
             \<longrightarrow> (\<exists>params. mp key = Some params
                  \<and> fitted_by lib log_likelihood_epsilon optimization_max_steps
                        (object_sizes smp) (data smp key) params)"
    using fit_models_params [OF assms] by blast
qed

text \<open>Instances: the loss on two samples, a fit of at most 10000 steps, and a fit on no
  samples, which stops at its second iteration after one update.\<close>

theorem model_fitter_loss_and_loop_witness:
  "compute_loss (of_noise \<lparr>base_mean = 0, base_sd = 1, slope_mean = 1, slope_sd = 1\<rparr>)
       [16, 32] [20, 40]
     = Fin (spec_loss \<lparr>base_mean = 0, base_sd = 1, slope_mean = 1, slope_sd = 1\<rparr>
         [16, 32] [20, 40])
   \<and> (\<exists>params locals'.
         fit_dimension plain_library (1 / 100) 10000 [16, 32] [20, 40] (Some 1, None)
           = (Inr (params, locals') :: unit py_error + size_params \<times> (nat option \<times> npfloat option))
       \<and> fitted_by plain_library (1 / 100) 10000 [16, 32] [20, 40] params)
   \<and> fit_dimension plain_library (1 / 100) 3 [] [] (None, None)
       = (Inr (\<lparr>base_mu = Fin 0, base_std = Fin 2, prop_mu = Fin 0, prop_std = Fin 2\<rparr>,
              (Some 1, Some (Fin 0)))
          :: unit py_error + size_params \<times> (nat option \<times> npfloat option))"
proof (intro conjI)
  note th = model_fitter_loss_and_loop [of 10000 "[16, 32]" "[20, 40]" plain_library
      "1 / 100" "(Some 1, None)"]
  have "\<forall>q. (\<forall>n\<in>set [16, 32]. 0 < spec_variance q (of_int n))
      \<longrightarrow> compute_loss (of_noise q) [16, 32] [20, 40] = Fin (spec_loss q [16, 32] [20, 40])"
    by (rule th [THEN conjunct1]) simp
  then show "compute_loss (of_noise \<lparr>base_mean = 0, base_sd = 1, slope_mean = 1, slope_sd = 1\<rparr>)
       [16, 32] [20, 40]
     = Fin (spec_loss \<lparr>base_mean = 0, base_sd = 1, slope_mean = 1, slope_sd = 1\<rparr>
         [16, 32] [20, 40])"
    by (simp add: spec_variance_def)
  show "\<exists>params locals'.
         fit_dimension plain_library (1 / 100) 10000 [16, 32] [20, 40] (Some 1, None)
           = (Inr (params, locals') :: unit py_error + size_params \<times> (nat option \<times> npfloat option))
       \<and> fitted_by plain_library (1 / 100) 10000 [16, 32] [20, 40] params"
    by (rule th [THEN conjunct2, THEN conjunct2, THEN conjunct1]) simp
  have z: "compute_loss params [] [] = Fin 0" for params
    by (simp add: compute_loss_def np_sum_def)
  have u: "[0..<3] = [0, 1, 2::nat]"
    by code_simp
  show "fit_dimension plain_library (1 / 100) 3 [] [] (None, None)
       = (Inr (\<lparr>base_mu = Fin 0, base_std = Fin 2, prop_mu = Fin 0, prop_std = Fin 2\<rparr>,
              (Some 1, Some (Fin 0)))
          :: unit py_error + size_params \<times> (nat option \<times> npfloat option))"
    by (simp add: fit_dimension_def u z Let_def loss_converged_def plain_library_def
        initial_params_def apply_updates_def)
qed

lemma fit_dimension_unbound:
  assumes "optimization_max_steps \<le> 0"
  shows "fit_dimension lib eps optimization_max_steps ns xs (vi, None)
     = (Inl UnboundLocalError :: 'e py_error + size_params \<times> (nat option \<times> npfloat option))"
  using assms by (simp add: fit_dimension_def)

lemma fit_models_unbound:
  assumes "optimization_max_steps \<le> 0"
  shows "fit_models lib eps optimization_max_steps smp
     = (Inl UnboundLocalError :: 'e py_error + (size_key \<rightharpoonup> size_params))"
  using assms by (simp add: fit_models_def size_keys_def fit_dimension_unbound)

lemma fit_models_loop_succeeds:
  assumes "1 \<le> optimization_max_steps"
  shows "\<exists>mp. fit_models_loop lib eps optimization_max_steps ns dat keys mp0 locals
        = (Inr mp :: 'e py_error + (size_key \<rightharpoonup> size_params))
      \<and> (\<forall>k. k \<in> set keys \<or> mp0 k \<noteq> None \<longrightarrow> mp k \<noteq> None)"
proof (induction keys arbitrary: mp0 locals)
  case Nil
  then show ?case by simp
next
  case (Cons key keys)
  obtain params i l where f: "fit_dimension lib eps optimization_max_steps ns (dat key) locals
      = (Inr (params, (Some i, Some l)) :: 'e py_error + size_params \<times> (nat option \<times> npfloat option))"
    using fit_dimension_steps [OF assms, of lib eps ns "dat key" locals, where ?'e = 'e] by blast
  obtain mp where mp: "fit_models_loop lib eps optimization_max_steps ns dat keys
        (mp0(key \<mapsto> params)) (Some i, Some l)
        = (Inr mp :: 'e py_error + (size_key \<rightharpoonup> size_params))"
    "\<forall>k. k \<in> set keys \<or> (mp0(key \<mapsto> params)) k \<noteq> None \<longrightarrow> mp k \<noteq> None"
    using Cons.IH [of "mp0(key \<mapsto> params)" "(Some i, Some l)"] by blast
  have "fit_models_loop lib eps optimization_max_steps ns dat (key # keys) mp0 locals
      = (Inr mp :: 'e py_error + (size_key \<rightharpoonup> size_params))"
    using f mp(1) by simp
  moreover have "\<forall>k. k \<in> set (key # keys) \<or> mp0 k \<noteq> None \<longrightarrow> mp k \<noteq> None"
    using mp(2) by auto
  ultimately show ?case
    by blast
qed

lemma fit_models_succeeds:
  assumes "1 \<le> optimization_max_steps"
  shows "\<exists>mp. fit_models lib eps optimization_max_steps smp
        = (Inr mp :: 'e py_error + (size_key \<rightharpoonup> size_params))
      \<and> (\<forall>k. mp k \<noteq> None)"
  unfolding fit_models_def
  using fit_models_loop_succeeds [OF assms, of lib eps "object_sizes smp" "data smp" size_keys
      Map.empty "(if smp = [] then None else Some (length smp - 1), None)", where ?'e = 'e]
    size_keys_all by blast

lemma sample_loop_errors:
  "sample_loop eb lo hi raws i k st \<noteq> Inl UnboundLocalError"
proof (induction k arbitrary: i st)
  case 0
  then show ?case by simp
next
  case (Suc k)
  then show ?case
    by (auto simp: np_randint_def split: sum.splits prod.splits if_splits)
qed

lemma collect_samples_errors:
  "collect_samples eb samples lo hi raws st \<noteq> Inl UnboundLocalError"
  by (simp add: collect_samples_def sample_loop_errors)

lemma py_int_errors: "py_int x \<noteq> Inl UnboundLocalError"
  by (cases x) simp_all

lemma ast_constraints_errors:
  "ast_constraints erfinv p mp items \<noteq> Inl UnboundLocalError"
  by (induction items) (auto simp: dict_get_def split: sum.splits option.splits)

lemma py_min_errors: "py_min cs \<noteq> Inl UnboundLocalError"
  by (cases cs) simp_all

lemma ast_target_count_errors:
  "ast_target_count erfinv p mp desired \<noteq> Inl UnboundLocalError"
  unfolding ast_target_count_def
  by (auto simp: ast_constraints_errors py_min_errors py_int_errors split: sum.splits)

lemma rounded_quantile_errors:
  "rounded_quantile rnd x \<noteq> Inl UnboundLocalError"
  unfolding rounded_quantile_def by (simp add: py_int_errors)

lemma quantiles_loop_errors:
  "quantiles_loop erfinv p rnd n items qs \<noteq> Inl UnboundLocalError"
  by (induction items arbitrary: qs) (auto simp: rounded_quantile_errors split: sum.splits)

lemma padding_config_errors:
  "padding_config qs \<noteq> Inl UnboundLocalError"
  unfolding padding_config_def dict_get_def by (simp split: sum.splits option.splits)

lemma report_errors:
  "report erfinv p rnd mp n \<noteq> Inl UnboundLocalError"
  unfolding report_def
  by (auto simp: quantiles_loop_errors padding_config_errors split: sum.splits)

lemma calibrate_from_params_errors:
  "calibrate_from_params erfinv p rnd mp desired \<noteq> Inl UnboundLocalError"
  unfolding calibrate_from_params_def
  by (auto simp: ast_target_count_errors report_errors split: sum.splits)

text \<open>
  Claim C10. With \<^verbatim>\<open>optimization_max_steps\<close> zero (or negative) the fitting loop never
  runs, \<^verbatim>\<open>loss\<close> is unbound when the first dimension's \<^verbatim>\<open>print\<close> reads it, and
  \<^verbatim>\<open>calibrate_padding\<close> raises. With \<^verbatim>\<open>optimization_max_steps\<close> at least 1 the fit
  produces parameters for each of the five dimensions, and \<^verbatim>\<open>calibrate_padding\<close> never
  raises for an unbound variable.
\<close>

theorem fit_needs_one_step:
  "(optimization_max_steps \<le> 0 \<longrightarrow>
      fit_models lib eps optimization_max_steps smp
        = (Inl UnboundLocalError :: 'e py_error + (size_key \<rightharpoonup> size_params))
      \<and> (\<exists>err. calibrate_padding erfinv lib raws st example_builder desired p samples
            min_object_size max_object_size optimization_max_steps eps rnd
          = (Inl err :: 'e py_error + int \<times> PaddingConfig)))
   \<and> (1 \<le> optimization_max_steps \<longrightarrow>
      (\<exists>mp. fit_models lib eps optimization_max_steps smp
            = (Inr mp :: 'e py_error + (size_key \<rightharpoonup> size_params))
          \<and> (\<forall>k. \<exists>params. mp k = Some params))
      \<and> calibrate_padding erfinv lib raws st example_builder desired p samples
            min_object_size max_object_size optimization_max_steps eps rnd
          \<noteq> (Inl UnboundLocalError :: 'e py_error + int \<times> PaddingConfig))"
proof (intro conjI impI)
  assume z: "optimization_max_steps \<le> 0"
  show "fit_models lib eps optimization_max_steps smp
        = (Inl UnboundLocalError :: 'e py_error + (size_key \<rightharpoonup> size_params))"
    by (rule fit_models_unbound [OF z])
  show "\<exists>err. calibrate_padding erfinv lib raws st example_builder desired p samples
            min_object_size max_object_size optimization_max_steps eps rnd
          = (Inl err :: 'e py_error + int \<times> PaddingConfig)"
    by (cases "collect_samples example_builder samples min_object_size max_object_size raws st
          :: 'e py_error + (int \<times> example) list")
      (simp_all add: calibrate_padding_def fit_models_unbound [OF z])
next
  assume o: "1 \<le> optimization_max_steps"
  show "\<exists>mp. fit_models lib eps optimization_max_steps smp
            = (Inr mp :: 'e py_error + (size_key \<rightharpoonup> size_params))
          \<and> (\<forall>k. \<exists>params. mp k = Some params)"
    using fit_models_succeeds [OF o, of lib eps smp, where ?'e = 'e] by auto
  show "calibrate_padding erfinv lib raws st example_builder desired p samples
            min_object_size max_object_size optimization_max_steps eps rnd
          \<noteq> (Inl UnboundLocalError :: 'e py_error + int \<times> PaddingConfig)"
  proof
    assume a: "calibrate_padding erfinv lib raws st example_builder desired p samples
            min_object_size max_object_size optimization_max_steps eps rnd
          = (Inl UnboundLocalError :: 'e py_error + int \<times> PaddingConfig)"
    show False
    proof (cases "collect_samples example_builder samples min_object_size max_object_size raws st
          :: 'e py_error + (int \<times> example) list")
      case (Inl err)
      then show False
        using a collect_samples_errors [of example_builder samples min_object_size
            max_object_size raws st]
        by (simp add: calibrate_padding_def)
    next
      case (Inr smp')
      obtain mp where mp: "fit_models lib eps optimization_max_steps smp'
            = (Inr mp :: 'e py_error + (size_key \<rightharpoonup> size_params))"
        using fit_models_succeeds [OF o, of lib eps smp', where ?'e = 'e] by blast
      have "calibrate_from_params erfinv p rnd mp desired
          = (Inl UnboundLocalError :: 'e py_error + int \<times> PaddingConfig)"
        using a Inr mp by (simp add: calibrate_padding_def)
      then show False
        by (simp add: calibrate_from_params_errors)
    qed
  qed
qed

text \<open>Instances: two samples and no optimization step; two samples and one step.\<close>

theorem fit_needs_one_step_witness:
  "calibrate_padding (\<lambda>y. y) plain_library (\<lambda>i. 1000 * int i + 5) 0 exact_builder
     \<lparr>static_max_metadata = \<lparr>num_nodes = 256, num_input_tagged_nodes = 256\<rparr>,
      max_initial_transitions = 256, max_in_tagged_transitions = 256, max_edges = 256\<rparr>
     (9 / 10) 2 16 512 0 (1 / 100) False
   = Inl UnboundLocalError
   \<and> (\<exists>mp. fit_models plain_library (1 / 100) 1 [(21, example_of_size 21), (29, example_of_size 29)]
         = (Inr mp :: string py_error + (size_key \<rightharpoonup> size_params))
       \<and> (\<forall>k. \<exists>params. mp k = Some params))"
proof (intro conjI)
  have s: "collect_samples exact_builder 2 16 512 (\<lambda>i. 1000 * int i + 5) 0
     = (Inr [(21, example_of_size 21), (29, example_of_size 29)]
        :: string py_error + (int \<times> example) list)"
    by (simp add: collect_samples_def np_randint_def exact_builder_def eval_nat_numeral)
  have "fit_models plain_library (1 / 100) 0 [(21, example_of_size 21), (29, example_of_size 29)]
        = (Inl UnboundLocalError :: string py_error + (size_key \<rightharpoonup> size_params))"
    by (rule fit_needs_one_step [THEN conjunct1, THEN mp, THEN conjunct1]) simp
  then show "calibrate_padding (\<lambda>y. y) plain_library (\<lambda>i. 1000 * int i + 5) 0 exact_builder
     \<lparr>static_max_metadata = \<lparr>num_nodes = 256, num_input_tagged_nodes = 256\<rparr>,
      max_initial_transitions = 256, max_in_tagged_transitions = 256, max_edges = 256\<rparr>
     (9 / 10) 2 16 512 0 (1 / 100) False
   = Inl UnboundLocalError"
    by (simp add: calibrate_padding_def s)
  show "\<exists>mp. fit_models plain_library (1 / 100) 1 [(21, example_of_size 21), (29, example_of_size 29)]
         = (Inr mp :: string py_error + (size_key \<rightharpoonup> size_params))
       \<and> (\<forall>k. \<exists>params. mp k = Some params)"
    by (rule fit_needs_one_step [THEN conjunct2, THEN mp, THEN conjunct1]) simp
qed

end
